theory Spec2Isabelle
  imports Main "HOL-Library.Product_Lexorder"
begin

section \<open>Python values the program works on\<close>

text \<open>
  A Python \<open>str\<close> is modelled as a \<open>string\<close>, one \<open>char\<close> per code point (code points
  below 256). The exceptions the modelled code can meet are values of \<open>exn\<close>; a function
  that may raise returns \<open>exn + 'a\<close>, with \<open>Inl\<close> for the exception.
\<close>

datatype exn =
    ValueError
  | KeyError
  | TypeError
  | AttributeError
  | JSONDecodeError
  | APIError string

subsection \<open>Character classes of \<open>re\<close> and \<open>str.strip\<close>\<close>

text \<open>
  \<open>\s\<close> and \<open>str.strip()\<close> use the same whitespace test: the code points
  9 to 13, 28 to 32, 133 and 160 below 256. \<open>\d\<close> is a decimal digit, \<open>\D\<close> its
  complement; below 256 the decimal digits are \<open>0\<close> to \<open>9\<close>.
\<close>

definition code_point :: "char \<Rightarrow> nat" where
  "code_point c = of_char c"

definition is_space :: "char \<Rightarrow> bool" where
  "is_space c = (let n = code_point c in
     (9 \<le> n \<and> n \<le> 13) \<or> (28 \<le> n \<and> n \<le> 32) \<or> n = 133 \<or> n = 160)"

definition is_digit :: "char \<Rightarrow> bool" where
  "is_digit c = (let n = code_point c in 48 \<le> n \<and> n \<le> 57)"

definition is_ascii_letter :: "char \<Rightarrow> bool" where
  "is_ascii_letter c = (let n = code_point c in
     (97 \<le> n \<and> n \<le> 122) \<or> (65 \<le> n \<and> n \<le> 90))"

definition py_strip :: "string \<Rightarrow> string" where
  "py_strip s = rev (dropWhile is_space (rev (dropWhile is_space s)))"

text \<open>
  \<open>str.upper()\<close>: \<open>a\<close> to \<open>z\<close> become \<open>A\<close> to \<open>Z\<close>; of the code points from 128 to 255,
  224 to 254 except 247 move down by 32, 223 becomes \<open>SS\<close>, and 181 and 255 have an
  uppercase form above 255, for which they stand here unchanged.
\<close>

definition upper_char :: "char \<Rightarrow> string" where
  "upper_char c = (let n = code_point c in
     if 97 \<le> n \<and> n \<le> 122 then [char_of (n - 32)]
     else if n = 223 then ''SS''
     else if 224 \<le> n \<and> n \<le> 254 \<and> n \<noteq> 247 then [char_of (n - 32)]
     else [c])"

definition py_upper :: "string \<Rightarrow> string" where
  "py_upper s = concat (map upper_char s)"

subsection \<open>Regular expressions\<close>

text \<open>
  The patterns of the program use character classes, concatenation, \<open>+\<close> and counted
  repetition only, so \<open>re.match\<close> on a pattern \<open>^r$\<close> succeeds exactly when the whole
  string, or the string without one final newline, is in the language of \<open>r\<close>.
  Membership is decided by derivatives.
\<close>

datatype rexp =
    Fail
  | Empty
  | Class "char \<Rightarrow> bool"
  | Cat rexp rexp
  | Or rexp rexp
  | Many rexp

primrec nullable :: "rexp \<Rightarrow> bool" where
  "nullable Fail = False"
| "nullable Empty = True"
| "nullable (Class P) = False"
| "nullable (Cat r s) = (nullable r \<and> nullable s)"
| "nullable (Or r s) = (nullable r \<or> nullable s)"
| "nullable (Many r) = True"

primrec deriv :: "char \<Rightarrow> rexp \<Rightarrow> rexp" where
  "deriv c Fail = Fail"
| "deriv c Empty = Fail"
| "deriv c (Class P) = (if P c then Empty else Fail)"
| "deriv c (Cat r s) =
     (if nullable r then Or (Cat (deriv c r) s) (deriv c s) else Cat (deriv c r) s)"
| "deriv c (Or r s) = Or (deriv c r) (deriv c s)"
| "deriv c (Many r) = Cat (deriv c r) (Many r)"

primrec in_lang :: "rexp \<Rightarrow> string \<Rightarrow> bool" where
  "in_lang r [] = nullable r"
| "in_lang r (c # cs) = in_lang (deriv c r) cs"

definition Plus :: "rexp \<Rightarrow> rexp" where
  "Plus r = Cat r (Many r)"

primrec Times :: "nat \<Rightarrow> rexp \<Rightarrow> rexp" where
  "Times 0 r = Empty"
| "Times (Suc n) r = Cat r (Times n r)"

definition Lit :: "char \<Rightarrow> rexp" where
  "Lit c = Class (\<lambda>x. x = c)"

definition re_match :: "rexp \<Rightarrow> string \<Rightarrow> bool" where
  "re_match r s =
     (in_lang r s \<or> (s \<noteq> [] \<and> last s = CHR 0x0A \<and> in_lang r (butlast s)))"

text \<open>\<open>re.sub(r"\D", "", v)\<close> keeps the decimal digits of \<open>v\<close>.\<close>

definition digits_only :: "string \<Rightarrow> string" where
  "digits_only v = filter is_digit v"

definition startswith :: "string \<Rightarrow> string \<Rightarrow> bool" where
  "startswith s p = (take (length p) s = p)"

text \<open>The four patterns of the two source files.\<close>

definition NAME_RE :: rexp where
  \<comment> \<open>\<open>^[a-zA-Z\s'-]+$\<close>\<close>
  "NAME_RE = Plus (Class (\<lambda>c. is_ascii_letter c \<or> is_space c \<or> c = CHR 0x27 \<or> c = CHR ''-''))"

definition EMAIL_RE :: rexp where
  \<comment> \<open>\<open>^[^\s@]+@[^\s@]+\.[^\s@]+$\<close>\<close>
  "EMAIL_RE =
     (let part = Plus (Class (\<lambda>c. \<not> (is_space c \<or> c = CHR ''@'')))
      in Cat part (Cat (Lit CHR ''@'') (Cat part (Cat (Lit CHR ''.'') part))))"

definition DOB_SLASH_RE :: rexp where
  \<comment> \<open>\<open>^\d{2}/\d{2}/\d{4}$\<close>\<close>
  "DOB_SLASH_RE =
     Cat (Times 2 (Class is_digit)) (Cat (Lit CHR ''/'')
       (Cat (Times 2 (Class is_digit)) (Cat (Lit CHR ''/'') (Times 4 (Class is_digit)))))"

definition DOB_ISO_RE :: rexp where
  \<comment> \<open>\<open>^\d{4}-\d{2}-\d{2}$\<close>\<close>
  "DOB_ISO_RE =
     Cat (Times 4 (Class is_digit)) (Cat (Lit CHR ''-'')
       (Cat (Times 2 (Class is_digit)) (Cat (Lit CHR ''-'') (Times 2 (Class is_digit)))))"

definition ZIP_RE :: rexp where
  \<comment> \<open>\<open>^\d{5}$\<close>\<close>
  "ZIP_RE = Times 5 (Class is_digit)"

subsection \<open>Dates\<close>

text \<open>
  \<open>datetime.date\<close>: the constructor raises \<open>ValueError\<close> outside the years 1 to 9999,
  the months 1 to 12 and the days of the month. \<open>datetime.strptime\<close> is modelled on
  what the program passes to it: a string that matched the pattern for the format, so
  month and day have two digits and the year has four. Any other string is a
  \<open>ValueError\<close>.
\<close>

record date =
  year :: int
  month :: int
  day :: int

definition is_leap :: "int \<Rightarrow> bool" where
  "is_leap y = (y mod 4 = 0 \<and> (y mod 100 \<noteq> 0 \<or> y mod 400 = 0))"

definition days_in_month :: "int \<Rightarrow> int \<Rightarrow> int" where
  "days_in_month y m =
     (if m = 2 then (if is_leap y then 29 else 28)
      else if m = 4 \<or> m = 6 \<or> m = 9 \<or> m = 11 then 30 else 31)"

definition make_date :: "int \<Rightarrow> int \<Rightarrow> int \<Rightarrow> exn + date" where
  "make_date y m d =
     (if 1 \<le> y \<and> y \<le> 9999 \<and> 1 \<le> m \<and> m \<le> 12 \<and> 1 \<le> d \<and> d \<le> days_in_month y m
      then Inr \<lparr>year = y, month = m, day = d\<rparr> else Inl ValueError)"

definition digit_value :: "char \<Rightarrow> int" where
  "digit_value c = int (code_point c) - 48"

definition int_of_digits :: "string \<Rightarrow> int" where
  "int_of_digits s = foldl (\<lambda>acc c. 10 * acc + digit_value c) 0 s"

definition strptime_mdY :: "string \<Rightarrow> exn + date" where
  \<comment> \<open>\<open>datetime.strptime(v, "%m/%d/%Y").date()\<close>\<close>
  "strptime_mdY s =
     (if in_lang DOB_SLASH_RE s
      then make_date (int_of_digits (drop 6 s)) (int_of_digits (take 2 s))
             (int_of_digits (take 2 (drop 3 s)))
      else Inl ValueError)"

definition strptime_Ymd :: "string \<Rightarrow> exn + date" where
  \<comment> \<open>\<open>datetime.strptime(v, "%Y-%m-%d").date()\<close>\<close>
  "strptime_Ymd s =
     (if in_lang DOB_ISO_RE s
      then make_date (int_of_digits (take 4 s)) (int_of_digits (take 2 (drop 5 s)))
             (int_of_digits (drop 8 s))
      else Inl ValueError)"

definition age_on :: "date \<Rightarrow> date \<Rightarrow> int" where
  \<comment> \<open>\<open>today.year - dob.year - ((today.month, today.day) < (dob.month, dob.day))\<close>\<close>
  "age_on today dob =
     year today - year dob - (if (month today, day today) < (month dob, day dob) then 1 else 0)"

section \<open>Field validation engine (agent.py)\<close>

text \<open>
  \<open>validate_field\<close> returns a dictionary with the keys \<open>valid\<close> and \<open>message\<close> and,
  when the value is accepted, \<open>cleaned_value\<close>. The dash of the length messages is the
  single character U+2013, written \<open>en_dash\<close> here (its UTF-8 bytes).
\<close>

record vresult =
  valid :: bool
  message :: string
  cleaned_value :: "string option"

definition rejected :: "string \<Rightarrow> vresult" where
  "rejected m = \<lparr>valid = False, message = m, cleaned_value = None\<rparr>"

definition accepted :: "string \<Rightarrow> vresult" where
  "accepted v = \<lparr>valid = True, message = ''Valid'', cleaned_value = Some v\<rparr>"

definition en_dash :: string where
  "en_dash = [CHR 0xE2, CHR 0x80, CHR 0x93]"

definition VALID_STATES :: "string list" where
  "VALID_STATES =
    [''AL'', ''AK'', ''AZ'', ''AR'', ''CA'', ''CO'', ''CT'', ''DE'', ''FL'', ''GA'',
     ''HI'', ''ID'', ''IL'', ''IN'', ''IA'', ''KS'', ''KY'', ''LA'', ''ME'', ''MD'',
     ''MA'', ''MI'', ''MN'', ''MS'', ''MO'', ''MT'', ''NE'', ''NV'', ''NH'', ''NJ'',
     ''NM'', ''NY'', ''NC'', ''ND'', ''OH'', ''OK'', ''OR'', ''PA'', ''RI'', ''SC'',
     ''SD'', ''TN'', ''TX'', ''UT'', ''VT'', ''VA'', ''WA'', ''WV'', ''WI'', ''WY'', ''DC'']"

definition check_age :: "date \<Rightarrow> string \<Rightarrow> date \<Rightarrow> vresult" where
  "check_age today v dob =
     (let age = age_on today dob in
      if age < 18 then rejected ''You must be at least 18 years old.''
      else if age > 120 then rejected ''Please enter a valid date of birth.''
      else accepted v)"

definition validate_field :: "date \<Rightarrow> string \<Rightarrow> string \<Rightarrow> exn + vresult" where
  "validate_field today field_name value =
    (let v = py_strip value in
     if field_name = ''firstName'' \<or> field_name = ''lastName'' then
       (let label = (if field_name = ''firstName'' then ''First name'' else ''Last name'') in
        if v = [] then Inr (rejected (label @ '' is required.''))
        else if length v < 2 \<or> length v > 50
          then Inr (rejected (label @ '' must be 2'' @ en_dash @ ''50 characters.''))
        else if \<not> re_match NAME_RE v
          then Inr (rejected
            (label @ '' can only contain letters, spaces, hyphens, and apostrophes.''))
        else Inr (accepted v))
     else if field_name = ''email'' then
       (if v = [] then Inr (rejected ''Email is required.'')
        else if \<not> re_match EMAIL_RE v
          then Inr (rejected ''Please enter a valid email address.'')
        else Inr (accepted v))
     else if field_name = ''phone'' then
       (let digits = digits_only v in
        if length digits \<noteq> 10
          then Inr (rejected ''Phone number must be exactly 10 digits.'')
        else Inr (accepted digits))
     else if field_name = ''dateOfBirth'' then
       (if v = [] then Inr (rejected ''Date of birth is required.'')
        else if re_match DOB_SLASH_RE v then
          (case strptime_mdY v of
             Inl ValueError \<Rightarrow> Inr (rejected ''Invalid date. Use MM/DD/YYYY format.'')
           | Inl e \<Rightarrow> Inl e
           | Inr dob \<Rightarrow> Inr (check_age today v dob))
        else if re_match DOB_ISO_RE v then
          (case strptime_Ymd v of
             Inl ValueError \<Rightarrow> Inr (rejected ''Invalid date. Use YYYY-MM-DD format.'')
           | Inl e \<Rightarrow> Inl e
           | Inr dob \<Rightarrow> Inr (check_age today v dob))
        else Inr (rejected ''Please enter date in MM/DD/YYYY format.''))
     else if field_name = ''ssn'' then
       (let digits = digits_only v in
        if length digits \<noteq> 9 then Inr (rejected ''SSN must be exactly 9 digits.'')
        else if startswith digits ''000'' \<or> startswith digits ''666'' \<or> startswith digits ''9''
          then Inr (rejected ''Please enter a valid SSN.'')
        else Inr (accepted digits))
     else if field_name = ''street'' then
       (if length v < 5 \<or> length v > 100
          then Inr (rejected (''Street address must be 5'' @ en_dash @ ''100 characters.''))
        else Inr (accepted v))
     else if field_name = ''city'' then
       (if \<not> re_match NAME_RE v
          then Inr (rejected ''City can only contain letters and spaces.'')
        else Inr (accepted v))
     else if field_name = ''state'' then
       (let v = py_upper v in
        if v \<notin> set VALID_STATES
          then Inr (rejected
            ''Please enter a valid 2-letter US state code (e.g., CA, NY, TX).'')
        else Inr (accepted v))
     else if field_name = ''zip'' then
       (if \<not> re_match ZIP_RE v then Inr (rejected ''ZIP code must be exactly 5 digits.'')
        else Inr (accepted v))
     else Inr (rejected (''Unknown field: '' @ field_name)))"

definition FIELD_NAMES :: "string list" where
  \<comment> \<open>the \<open>enum\<close> of \<open>field_name\<close> in \<open>TOOLS\<close>, the ten required keys of \<open>create_account\<close>\<close>
  "FIELD_NAMES = [''firstName'', ''lastName'', ''email'', ''phone'', ''dateOfBirth'',
     ''ssn'', ''street'', ''city'', ''state'', ''zip'']"

section \<open>Fixed texts (agent.py)\<close>

text \<open>
  The characters of the fixed texts above U+00FF are written as their UTF-8 bytes.
\<close>

definition em_dash :: string where
  "em_dash = [CHR 0xE2, CHR 0x80, CHR 0x94]"

definition waving_hand :: string where
  "waving_hand = [CHR 0xF0, CHR 0x9F, CHR 0x91, CHR 0x8B]"

definition check_mark :: string where
  "check_mark = [CHR 0xE2, CHR 0x9C, CHR 0x85]"

definition lock_sign :: string where
  "lock_sign = [CHR 0xF0, CHR 0x9F, CHR 0x94, CHR 0x92]"

definition party_popper :: string where
  "party_popper = [CHR 0xF0, CHR 0x9F, CHR 0x8E, CHR 0x89]"

definition SYSTEM_PROMPT :: string where
  \<open>SYSTEM_PROMPT =
     ''You are Apex, the AI banking assistant for Apex Financial. Your job is to help customers open a new checking account.\<newline>'' @
     ''\<newline>'' @
     ''## Your Personality\<newline>'' @
     ''- Professional yet friendly and warm\<newline>'' @
     ''- Concise '' @ em_dash @ '' keep responses short (1-3 sentences max)\<newline>'' @
     ''- Use occasional emojis to feel approachable ('' @ waving_hand @ '', '' @ check_mark @ '', '' @ lock_sign @ '', '' @ party_popper @ '') but don't overdo it\<newline>'' @
     ''\<newline>'' @
     ''## Account Opening Process\<newline>'' @
     ''You MUST collect the following information, ONE FIELD AT A TIME, in this order:\<newline>'' @
     ''1. First name\<newline>'' @
     ''2. Last name\<newline>'' @
     ''3. Email address\<newline>'' @
     ''4. Phone number (10 digits)\<newline>'' @
     ''5. Date of birth (MM/DD/YYYY format, must be 18+)\<newline>'' @
     ''6. Social Security Number (9 digits '' @ em_dash @ '' reassure the user it's encrypted and secure)\<newline>'' @
     ''7. Street address\<newline>'' @
     ''8. City\<newline>'' @
     ''9. State (2-letter US state code)\<newline>'' @
     ''10. ZIP code (5 digits)\<newline>'' @
     ''\<newline>'' @
     ''## Rules\<newline>'' @
     ''- Ask for ONE piece of information at a time. Never ask for multiple fields in a single message.\<newline>'' @
     ''- After the user provides a value, ALWAYS call the validate_field tool to check it before moving on.\<newline>'' @
     ''- If validation fails, tell the user the error and ask them to re-enter that field.\<newline>'' @
     ''- If validation succeeds, acknowledge briefly and ask for the next field.\<newline>'' @
     ''- After ALL 10 fields are collected and validated, present a summary of the information and ask the user to confirm it's correct.\<newline>'' @
     ''- If the user wants to edit, ask which field they'd like to change and re-collect just that field.\<newline>'' @
     ''- Once confirmed, call show_agreement to retrieve the Terms & Conditions.\<newline>'' @
     ''- Present a BRIEF summary of the key terms (fees, FDIC insurance, privacy) and ask the user to type "I agree" to accept.\<newline>'' @
     ''- Only after the user explicitly agrees (says "I agree", "yes I agree", "agree", etc.), call create_account with all the collected data.\<newline>'' @
     ''- If the user declines, respect their decision and let them know they can come back anytime.\<newline>'' @
     ''- NEVER fabricate or assume data. ALWAYS use the values the user provides.\<newline>'' @
     ''- If the user asks unrelated questions, politely redirect them back to the account opening process.\<newline>'' @
     ''- When presenting the review summary, mask the SSN showing only the last 4 digits (e.g., ***-**-6789).\<newline>'' @
     ''\<newline>'' @
     ''## Important\<newline>'' @
     ''- You are ONLY able to help with opening checking accounts. For other products (credit cards, savings), let the user know those services are coming soon.\<newline>'' @
     ''- Always maintain context of what has already been collected so you don't re-ask for information.\<newline>''\<close>

definition TERMS_AND_CONDITIONS :: string where
  \<open>TERMS_AND_CONDITIONS =
     ''\<newline>'' @
     ''APEX FINANCIAL '' @ em_dash @ '' CHECKING ACCOUNT TERMS & CONDITIONS\<newline>'' @
     ''Effective Date: January 1, 2026\<newline>'' @
     ''\<newline>'' @
     ''1. ACCOUNT AGREEMENT '' @ em_dash @ '' By opening a checking account with Apex Financial, you agree to these terms.\<newline>'' @
     ''2. ELIGIBILITY '' @ em_dash @ '' Must be 18+ and a legal U.S. resident.\<newline>'' @
     ''3. ACCOUNT OWNERSHIP '' @ em_dash @ '' Account held in name(s) provided during application.\<newline>'' @
     ''4. DEPOSITS & WITHDRAWALS '' @ em_dash @ '' Via direct deposit, mobile check deposit, wire transfer, debit card, ATM, or check.\<newline>'' @
     ''5. FEES '' @ em_dash @ '' Monthly Maintenance: $0 | ATM (non-network): $0 | Overdraft: $0 | Domestic Wire: $15 | International Wire: $30\<newline>'' @
     ''6. ELECTRONIC COMMUNICATIONS '' @ em_dash @ '' You consent to receive statements and notices electronically.\<newline>'' @
     ''7. PRIVACY '' @ em_dash @ '' Your personal information (including SSN) is securely stored and never sold to third parties.\<newline>'' @
     ''8. FDIC INSURANCE '' @ em_dash @ '' Deposits insured up to $250,000 per depositor.\<newline>'' @
     ''9. ACCOUNT CLOSURE '' @ em_dash @ '' You may close at any time; Bank may close with 30 days notice.\<newline>'' @
     ''10. GOVERNING LAW '' @ em_dash @ '' Governed by Delaware state and federal law.\<newline>'' @
     ''11. DISPUTE RESOLUTION '' @ em_dash @ '' Binding arbitration via American Arbitration Association.\<newline>''\<close>

definition FALLBACK :: string where
  "FALLBACK = ''I'm sorry, I encountered an issue processing your request. Please try again.''"

definition MAX_ITERATIONS :: nat where
  "MAX_ITERATIONS = 10"

section \<open>JSON\<close>

text \<open>
  A JSON text is represented by the value it encodes, and a text that \<open>json.loads\<close>
  rejects by \<open>Malformed\<close>; so \<open>json.loads (json.dumps x)\<close> is \<open>x\<close>. Numbers are
  integers, an object is the list of its members, read as a dictionary with \<open>map_of\<close>.
\<close>

datatype json =
    JNull
  | JBool bool
  | JNum int
  | JStr string
  | JArr "json list"
  | JObj "(string \<times> json) list"

datatype json_text = Malformed | Json json

definition json_loads :: "json_text \<Rightarrow> exn + json" where
  "json_loads t = (case t of Malformed \<Rightarrow> Inl JSONDecodeError | Json j \<Rightarrow> Inr j)"

definition json_dumps :: "json \<Rightarrow> json_text" where
  "json_dumps j = Json j"

definition subscript :: "json \<Rightarrow> string \<Rightarrow> exn + json" where
  \<comment> \<open>\<open>x[key]\<close> with a string key\<close>
  "subscript x k =
     (case x of
        JObj members \<Rightarrow> (case map_of members k of None \<Rightarrow> Inl KeyError | Some v \<Rightarrow> Inr v)
      | _ \<Rightarrow> Inl TypeError)"

definition dict_get :: "json \<Rightarrow> string \<Rightarrow> json \<Rightarrow> exn + json" where
  \<comment> \<open>\<open>x.get(key, default)\<close>\<close>
  "dict_get x k dflt =
     (case x of
        JObj members \<Rightarrow> (case map_of members k of None \<Rightarrow> Inr dflt | Some v \<Rightarrow> Inr v)
      | _ \<Rightarrow> Inl AttributeError)"

definition truthy :: "json \<Rightarrow> bool" where
  "truthy x =
     (case x of
        JNull \<Rightarrow> False
      | JBool b \<Rightarrow> b
      | JNum n \<Rightarrow> n \<noteq> 0
      | JStr s \<Rightarrow> s \<noteq> []
      | JArr xs \<Rightarrow> xs \<noteq> []
      | JObj members \<Rightarrow> members \<noteq> [])"

section \<open>Environment and program state\<close>

text \<open>
  What the program takes from outside is a parameter: the current date, the identifiers
  \<open>uuid.uuid4\<close> hands out (by the number handed out before), the draws of \<open>random\<close>
  (by the number drawn before), the reasoning engine (by the number of calls made before
  and the transcript sent: it answers with a message or raises) and Python's \<open>str()\<close>
  of a JSON value that is no string. The state is the session store and the three counts.
\<close>

record tool_call =
  call_id :: string
  function_name :: string
  function_arguments :: json_text

record assistant_message =
  content :: "string option"
  tool_calls :: "tool_call list"

datatype turn =
    System string
  | User string
  | AssistantToolCalls "string option" "tool_call list"
  | Assistant string
  | Tool string json_text

record env =
  env_today :: date
  env_uuid4 :: "nat \<Rightarrow> string"
  env_random :: "nat \<Rightarrow> nat"
  env_engine :: "nat \<Rightarrow> turn list \<Rightarrow> exn + assistant_message"
  env_str :: "json \<Rightarrow> string"

record world =
  sessions :: "string \<rightharpoonup> turn list"
  uuid_calls :: nat
  random_calls :: nat
  engine_calls :: nat

definition DIGITS :: string where
  \<comment> \<open>\<open>string.digits\<close>\<close>
  "DIGITS = ''0123456789''"

definition random_choices :: "env \<Rightarrow> string \<Rightarrow> nat \<Rightarrow> world \<Rightarrow> string \<times> world" where
  \<comment> \<open>\<open>"".join(random.choices(population, k=k))\<close>, for a population that is not empty\<close>
  "random_choices env population k w =
     (map (\<lambda>i. population ! (env_random env (random_calls w + i) mod length population)) [0..<k],
      w\<lparr>random_calls := random_calls w + k\<rparr>)"

definition format_value :: "env \<Rightarrow> json \<Rightarrow> string" where
  \<comment> \<open>a value inside an f-string\<close>
  "format_value env x = (case x of JStr s \<Rightarrow> s | _ \<Rightarrow> env_str env x)"

section \<open>Tools (agent.py)\<close>

definition vresult_json :: "vresult \<Rightarrow> json" where
  \<comment> \<open>the dictionary \<open>validate_field\<close> returns\<close>
  "vresult_json r =
     JObj ([(''valid'', JBool (valid r)), (''message'', JStr (message r))] @
           (case cleaned_value r of None \<Rightarrow> [] | Some c \<Rightarrow> [(''cleaned_value'', JStr c)]))"

definition call_validate_field :: "env \<Rightarrow> json \<Rightarrow> json \<Rightarrow> exn + vresult" where
  \<comment> \<open>\<open>validate_field\<close> called with decoded JSON: \<open>value.strip()\<close> needs a string, and a
      name that is no string equals none of the ten names\<close>
  "call_validate_field env field_name value =
     (case value of
        JStr v \<Rightarrow>
          (case field_name of
             JStr f \<Rightarrow> validate_field (env_today env) f v
           | _ \<Rightarrow> Inr (rejected (''Unknown field: '' @ format_value env field_name)))
      | _ \<Rightarrow> Inl AttributeError)"

definition show_agreement :: json where
  \<open>show_agreement =
     JObj [(''terms'', JStr (py_strip TERMS_AND_CONDITIONS)),
           (''instruction'',
            JStr ''Present these terms to the user and ask them to type 'I agree' to accept.'')]\<close>

definition create_account :: "env \<Rightarrow> json \<Rightarrow> world \<Rightarrow> (exn + json) \<times> world" where
  "create_account env data w =
     (let (account_number, w1) = random_choices env DIGITS 10 w;
          (routing_number, w2) = random_choices env DIGITS 9 w1
      in case dict_get data ''firstName'' (JStr []) of
           Inl e \<Rightarrow> (Inl e, w2)
         | Inr first_name \<Rightarrow>
             (case dict_get data ''lastName'' (JStr []) of
                Inl e \<Rightarrow> (Inl e, w2)
              | Inr last_name \<Rightarrow>
                  (Inr (JObj
                     [(''success'', JBool True),
                      (''accountNumber'', JStr account_number),
                      (''routingNumber'', JStr routing_number),
                      (''accountType'', JStr ''Checking''),
                      (''customerName'', JStr (format_value env first_name @ '' '' @ format_value env last_name)),
                      (''message'', JStr ''Account created successfully!'')]), w2)))"

definition execute_tool :: "env \<Rightarrow> string \<Rightarrow> json \<Rightarrow> world \<Rightarrow> (exn + json_text) \<times> world" where
  "execute_tool env tool_name arguments w =
     (if tool_name = ''validate_field'' then
        (case subscript arguments ''field_name'' of
           Inl e \<Rightarrow> (Inl e, w)
         | Inr field_name \<Rightarrow>
             (case subscript arguments ''value'' of
                Inl e \<Rightarrow> (Inl e, w)
              | Inr value \<Rightarrow>
                  (case call_validate_field env field_name value of
                     Inl e \<Rightarrow> (Inl e, w)
                   | Inr result \<Rightarrow> (Inr (json_dumps (vresult_json result)), w))))
      else if tool_name = ''show_agreement'' then (Inr (json_dumps show_agreement), w)
      else if tool_name = ''create_account'' then
        (case create_account env arguments w of
           (Inl e, w1) \<Rightarrow> (Inl e, w1)
         | (Inr result, w1) \<Rightarrow> (Inr (json_dumps result), w1))
      else (Inr (json_dumps (JObj [(''error'', JStr (''Unknown tool: '' @ tool_name))])), w))"

section \<open>Session store (agent.py)\<close>

text \<open>
  \<open>sessions\<close> maps a session identifier to its transcript. \<open>history\<close> in
  \<open>process_message\<close> is the list object stored under the identifier, so an append to
  it is an update of the store.
\<close>

definition uuid4_str :: "env \<Rightarrow> world \<Rightarrow> string \<times> world" where
  \<comment> \<open>\<open>str(uuid.uuid4())\<close>\<close>
  "uuid4_str env w = (env_uuid4 env (uuid_calls w), w\<lparr>uuid_calls := uuid_calls w + 1\<rparr>)"

definition get_or_create_session :: "env \<Rightarrow> string option \<Rightarrow> world \<Rightarrow> string \<times> world" where
  "get_or_create_session env session_id w =
     (case session_id of
        None \<Rightarrow>
          (let (sid, w1) = uuid4_str env w
           in (sid, w1\<lparr>sessions := (sessions w1)(sid \<mapsto> [System SYSTEM_PROMPT])\<rparr>))
      | Some s \<Rightarrow>
          if s = [] \<or> s \<notin> dom (sessions w) then
            (let (sid, w1) = (if s = [] then uuid4_str env w else (s, w))
             in (sid, w1\<lparr>sessions := (sessions w1)(sid \<mapsto> [System SYSTEM_PROMPT])\<rparr>))
          else (s, w))"

definition history_of :: "world \<Rightarrow> string \<Rightarrow> turn list" where
  "history_of w sid = (case sessions w sid of None \<Rightarrow> [] | Some h \<Rightarrow> h)"

definition append_turn :: "string \<Rightarrow> turn \<Rightarrow> world \<Rightarrow> world" where
  \<comment> \<open>\<open>history.append(turn)\<close>\<close>
  "append_turn sid t w = w\<lparr>sessions := (sessions w)(sid \<mapsto> history_of w sid @ [t])\<rparr>"

section \<open>Agent loop (agent.py)\<close>

type_synonym metadata = "string \<rightharpoonup> json"

record chat_result =
  sessionId :: string
  reply :: string
  metadata :: metadata

definition capture_metadata :: "string \<Rightarrow> json_text \<Rightarrow> metadata \<Rightarrow> exn + metadata" where
  \<comment> \<open>the block under \<open>if fn_name == "create_account"\<close>\<close>
  "capture_metadata fn_name tool_result md =
     (if fn_name = ''create_account'' then
        (case json_loads tool_result of
           Inl e \<Rightarrow> Inl e
         | Inr result_data \<Rightarrow>
             (case dict_get result_data ''success'' JNull of
                Inl e \<Rightarrow> Inl e
              | Inr success \<Rightarrow>
                  if truthy success then
                    (case subscript result_data ''accountNumber'' of
                       Inl e \<Rightarrow> Inl e
                     | Inr account_number \<Rightarrow>
                         (case subscript result_data ''routingNumber'' of
                            Inl e \<Rightarrow> Inl e
                          | Inr routing_number \<Rightarrow>
                              (case subscript result_data ''accountType'' of
                                 Inl e \<Rightarrow> Inl e
                               | Inr account_type \<Rightarrow>
                                   Inr (md(''accountCreated'' \<mapsto> JBool True,
                                           ''accountNumber'' \<mapsto> account_number,
                                           ''routingNumber'' \<mapsto> routing_number,
                                           ''accountType'' \<mapsto> account_type)))))
                  else Inr md))
      else Inr md)"

fun execute_tool_calls ::
  "env \<Rightarrow> string \<Rightarrow> tool_call list \<Rightarrow> metadata \<Rightarrow> world \<Rightarrow> (exn + metadata) \<times> world" where
  "execute_tool_calls env sid [] md w = (Inr md, w)"
| "execute_tool_calls env sid (tc # rest) md w =
     (let fn_name = function_name tc in
      case json_loads (function_arguments tc) of
        Inl e \<Rightarrow> (Inl e, w)
      | Inr fn_args \<Rightarrow>
          (case execute_tool env fn_name fn_args w of
             (Inl e, w1) \<Rightarrow> (Inl e, w1)
           | (Inr tool_result, w1) \<Rightarrow>
               (case capture_metadata fn_name tool_result md of
                  Inl e \<Rightarrow> (Inl e, w1)
                | Inr md1 \<Rightarrow>
                    execute_tool_calls env sid rest md1
                      (append_turn sid (Tool (call_id tc) tool_result) w1))))"

datatype step = Raise exn | Continue metadata | Return chat_result

definition loop_body :: "env \<Rightarrow> string \<Rightarrow> metadata \<Rightarrow> world \<Rightarrow> step \<times> world" where
  \<comment> \<open>one pass through the body of \<open>for _ in range(max_iterations)\<close>\<close>
  "loop_body env sid md w =
     (let w1 = w\<lparr>engine_calls := engine_calls w + 1\<rparr> in
      case env_engine env (engine_calls w) (history_of w sid) of
        Inl e \<Rightarrow> (Raise e, w1)
      | Inr assistant_message \<Rightarrow>
          if tool_calls assistant_message \<noteq> [] then
            (let w2 = append_turn sid
                        (AssistantToolCalls (content assistant_message)
                           (tool_calls assistant_message)) w1
             in case execute_tool_calls env sid (tool_calls assistant_message) md w2 of
                  (Inl e, w3) \<Rightarrow> (Raise e, w3)
                | (Inr md1, w3) \<Rightarrow> (Continue md1, w3))
          else
            (let reply = (case content assistant_message of None \<Rightarrow> [] | Some c \<Rightarrow> c);
                 w2 = append_turn sid (Assistant reply) w1
             in (Return \<lparr>sessionId = sid, reply = reply, metadata = md\<rparr>, w2)))"

fun agent_loop ::
  "env \<Rightarrow> string \<Rightarrow> nat \<Rightarrow> metadata \<Rightarrow> world \<Rightarrow> (exn + chat_result) \<times> world" where
  "agent_loop env sid 0 md w =
     (let w1 = append_turn sid (Assistant FALLBACK) w
      in (Inr \<lparr>sessionId = sid, reply = FALLBACK, metadata = md\<rparr>, w1))"
| "agent_loop env sid (Suc n) md w =
     (case loop_body env sid md w of
        (Raise e, w1) \<Rightarrow> (Inl e, w1)
      | (Return r, w1) \<Rightarrow> (Inr r, w1)
      | (Continue md1, w1) \<Rightarrow> agent_loop env sid n md1 w1)"

definition process_message ::
  "env \<Rightarrow> string option \<Rightarrow> string \<Rightarrow> world \<Rightarrow> (exn + chat_result) \<times> world" where
  "process_message env session_id user_message w =
     (let (sid, w1) = get_or_create_session env session_id w;
          w2 = append_turn sid (User user_message) w1
      in agent_loop env sid MAX_ITERATIONS Map.empty w2)"

section \<open>HTTP endpoints (main.py)\<close>

text \<open>
  A field validator returns the cleaned value or raises \<open>ValueError\<close> with a message
  (\<open>Inl\<close>). The request model validates every field in the order of declaration and
  gathers the errors of all of them, each under the location of its field and with the
  message prefixed by \<open>Value error, \<close>; the endpoint body runs only when there is none.
  The request record holds the body as typed: ten strings and a boolean.
\<close>

definition validate_street :: "string \<Rightarrow> string + string" where
  "validate_street value =
     (let v = py_strip value in
      if length v < 5 \<or> length v > 100
        then Inl (''Street address must be 5'' @ en_dash @ ''100 characters.'')
      else Inr v)"

definition validate_city :: "string \<Rightarrow> string + string" where
  "validate_city value =
     (let v = py_strip value in
      if \<not> re_match NAME_RE v then Inl ''City can only contain letters and spaces.''
      else Inr v)"

definition validate_state :: "string \<Rightarrow> string + string" where
  "validate_state value =
     (let v = py_upper (py_strip value) in
      if v \<notin> set VALID_STATES then Inl ''Please provide a valid 2-letter US state code.''
      else Inr v)"

definition validate_zip :: "string \<Rightarrow> string + string" where
  "validate_zip value =
     (let v = py_strip value in
      if \<not> re_match ZIP_RE v then Inl ''ZIP code must be exactly 5 digits.''
      else Inr v)"

definition validate_first_name :: "string \<Rightarrow> string + string" where
  "validate_first_name value =
     (let v = py_strip value in
      if length v < 2 \<or> length v > 50
        then Inl (''First name must be 2'' @ en_dash @ ''50 characters.'')
      else if \<not> re_match NAME_RE v
        then Inl ''First name can only contain letters, spaces, hyphens, and apostrophes.''
      else Inr v)"

definition validate_last_name :: "string \<Rightarrow> string + string" where
  "validate_last_name value =
     (let v = py_strip value in
      if length v < 2 \<or> length v > 50
        then Inl (''Last name must be 2'' @ en_dash @ ''50 characters.'')
      else if \<not> re_match NAME_RE v
        then Inl ''Last name can only contain letters, spaces, hyphens, and apostrophes.''
      else Inr v)"

definition validate_email :: "string \<Rightarrow> string + string" where
  "validate_email value =
     (let v = py_strip value in
      if \<not> re_match EMAIL_RE v then Inl ''Please provide a valid email address.''
      else Inr v)"

definition validate_phone :: "string \<Rightarrow> string + string" where
  "validate_phone v =
     (let digits = digits_only v in
      if length digits \<noteq> 10 then Inl ''Phone number must be exactly 10 digits.''
      else Inr digits)"

definition validate_dob :: "date \<Rightarrow> string \<Rightarrow> string + string" where
  "validate_dob today value =
     (let v = py_strip value;
          parsed =
            (if re_match DOB_SLASH_RE v then
               (case strptime_mdY v of
                  Inl e \<Rightarrow> Inl ''Please provide a valid date (MM/DD/YYYY).''
                | Inr dob \<Rightarrow> Inr dob)
             else if re_match DOB_ISO_RE v then
               (case strptime_Ymd v of
                  Inl e \<Rightarrow> Inl ''Please provide a valid date (YYYY-MM-DD).''
                | Inr dob \<Rightarrow> Inr dob)
             else Inl ''Date of birth must be in MM/DD/YYYY or YYYY-MM-DD format.'')
      in case parsed of
           Inl m \<Rightarrow> Inl m
         | Inr dob \<Rightarrow>
             (let age = age_on today dob in
              if age < 18 then Inl ''You must be at least 18 years old to open an account.''
              else if age > 120 then Inl ''Please provide a valid date of birth.''
              else Inr v))"

definition validate_ssn :: "string \<Rightarrow> string + string" where
  "validate_ssn v =
     (let digits = digits_only v in
      if length digits \<noteq> 9 then Inl ''SSN must be exactly 9 digits.''
      else if startswith digits ''000'' \<or> startswith digits ''666'' \<or> startswith digits ''9''
        then Inl ''Please provide a valid SSN.''
      else Inr digits)"


record address =
  street :: string
  city :: string
  state :: string
  zip_code :: string

record account_request =
  firstName :: string
  lastName :: string
  email :: string
  phone :: string
  dateOfBirth :: string
  ssn :: string
  address :: address
  agreedToTerms :: bool






definition validated :: "'a \<Rightarrow> string + 'a \<Rightarrow> 'a" where
  \<comment> \<open>the value a validator returned; read only when no validator raised\<close>
  "validated raw r = (case r of Inl m \<Rightarrow> raw | Inr v \<Rightarrow> v)"






text \<open>
  The validator main.py declares for each of the ten fields, and the value of a field
  in a request.
\<close>

definition FIELD_VALIDATORS :: "date \<Rightarrow> (string \<times> (string \<Rightarrow> string + string)) list" where
  "FIELD_VALIDATORS today =
     [(''firstName'', validate_first_name), (''lastName'', validate_last_name),
      (''email'', validate_email), (''phone'', validate_phone),
      (''dateOfBirth'', validate_dob today), (''ssn'', validate_ssn),
      (''street'', validate_street), (''city'', validate_city),
      (''state'', validate_state), (''zip'', validate_zip)]"



section \<open>Notions used to state the properties\<close>

text \<open>
  A result of \<open>validate_field\<close> is well formed when it carries a cleaned value exactly
  when it is valid, and its message is not empty.
\<close>

definition well_formed :: "vresult \<Rightarrow> bool" where
  "well_formed r = ((cleaned_value r \<noteq> None) = valid r \<and> message r \<noteq> [])"

text \<open>
  The rule for the date of birth, in the words of the specification. A string has a
  format when it has a digit where the format has a letter and the character of the
  format elsewhere. The rule gives the cleaned value of an accepted string, and \<open>None\<close>
  for a rejected one.
\<close>

definition has_format :: "string \<Rightarrow> string \<Rightarrow> bool" where
  "has_format fmt s = list_all2 (\<lambda>f c. if is_ascii_letter f then is_digit c else c = f) fmt s"

definition calendar_date :: "int \<Rightarrow> int \<Rightarrow> int \<Rightarrow> bool" where
  "calendar_date y m d =
     (1 \<le> y \<and> y \<le> 9999 \<and> 1 \<le> m \<and> m \<le> 12 \<and> 1 \<le> d \<and> d \<le> days_in_month y m)"

definition read_date :: "string \<Rightarrow> (int \<times> int \<times> int) option" where
  "read_date v =
     (if has_format ''MM/DD/YYYY'' v
        then Some (int_of_digits (drop 6 v), int_of_digits (take 2 v), int_of_digits (take 2 (drop 3 v)))
      else if has_format ''YYYY-MM-DD'' v
        then Some (int_of_digits (take 4 v), int_of_digits (take 2 (drop 5 v)), int_of_digits (drop 8 v))
      else None)"

definition date_of_birth_rule :: "date \<Rightarrow> string \<Rightarrow> string option" where
  "date_of_birth_rule today v =
     (case read_date v of
        None \<Rightarrow> None
      | Some (y, m, d) \<Rightarrow>
          if calendar_date y m d then
            (let before_birthday = (month today < m \<or> (month today = m \<and> day today < d));
                 age = year today - y - (if before_birthday then 1 else 0)
             in if age < 18 \<or> age > 120 then None else Some v)
          else None)"

text \<open>
  Two validation paths take the same decision on a value when both reject it, or both
  accept it with the same cleaned value.
\<close>

definition same_decision :: "string + string \<Rightarrow> exn + vresult \<Rightarrow> bool" where
  "same_decision direct dialogue =
     (case dialogue of
        Inl e \<Rightarrow> False
      | Inr r \<Rightarrow>
          (case direct of
             Inl m \<Rightarrow> \<not> valid r \<and> cleaned_value r = None
           | Inr c \<Rightarrow> valid r \<and> cleaned_value r = Some c))"




text \<open>
  One tool invocation of the loop: decode the arguments, run the tool. The turns a list
  of invocations is expected to leave are those of running them one after the other, each
  in the state the one before it left, every result under the identifier of its
  invocation.
\<close>

definition run_call :: "env \<Rightarrow> tool_call \<Rightarrow> world \<Rightarrow> (exn + json_text) \<times> world" where
  "run_call env tc w =
     (case json_loads (function_arguments tc) of
        Inl e \<Rightarrow> (Inl e, w)
      | Inr fn_args \<Rightarrow> execute_tool env (function_name tc) fn_args w)"

fun expected_tool_turns :: "env \<Rightarrow> tool_call list \<Rightarrow> world \<Rightarrow> turn list" where
  "expected_tool_turns env [] w = []"
| "expected_tool_turns env (tc # rest) w =
     (case run_call env tc w of
        (Inl e, w1) \<Rightarrow> []
      | (Inr tool_result, w1) \<Rightarrow> Tool (call_id tc) tool_result # expected_tool_turns env rest w1)"

text \<open>
  An invocation is well formed when its arguments are valid JSON and hold what the tool
  reads: for \<open>validate_field\<close> an object with the keys \<open>field_name\<close> and \<open>value\<close>, the
  value a string; for \<open>create_account\<close> an object.
\<close>

definition call_well_formed :: "tool_call \<Rightarrow> bool" where
  "call_well_formed tc =
     (case function_arguments tc of
        Malformed \<Rightarrow> False
      | Json fn_args \<Rightarrow>
          if function_name tc = ''validate_field'' then
            (case fn_args of
               JObj members \<Rightarrow>
                 (case map_of members ''field_name'' of
                    None \<Rightarrow> False
                  | Some f \<Rightarrow>
                      (case map_of members ''value'' of
                         Some (JStr v) \<Rightarrow> True
                       | _ \<Rightarrow> False))
             | _ \<Rightarrow> False)
          else if function_name tc = ''create_account'' then
            (case fn_args of JObj members \<Rightarrow> True | _ \<Rightarrow> False)
          else True)"

definition tool_call_id :: "turn \<Rightarrow> string option" where
  "tool_call_id t = (case t of Tool i c \<Rightarrow> Some i | _ \<Rightarrow> None)"

text \<open>
  The metadata and the state after \<open>n\<close> passes through the loop body that all went on to
  the next pass (each response carried tool invocations, and none of them raised).
\<close>

fun after_iterations :: "env \<Rightarrow> string \<Rightarrow> nat \<Rightarrow> metadata \<Rightarrow> world \<Rightarrow> (metadata \<times> world) option" where
  "after_iterations env sid 0 md w = Some (md, w)"
| "after_iterations env sid (Suc n) md w =
     (case loop_body env sid md w of
        (Continue md1, w1) \<Rightarrow> after_iterations env sid n md1 w1
      | (Raise e, w1) \<Rightarrow> None
      | (Return r, w1) \<Rightarrow> None)"

text \<open>
  A state extends another when every transcript of the first is still there, with turns
  appended at most.
\<close>

definition extends :: "world \<Rightarrow> world \<Rightarrow> bool" where
  "extends w w' = (\<forall>k h. sessions w k = Some h \<longrightarrow> (\<exists>new. sessions w' k = Some (h @ new)))"

text \<open>
  The dictionary \<open>create_account\<close> of agent.py returns for a dictionary of arguments,
  and the metadata the loop captures from it.
\<close>

definition account_json :: "env \<Rightarrow> (string \<times> json) list \<Rightarrow> string \<Rightarrow> string \<Rightarrow> json" where
  "account_json env members account_number routing_number =
     JObj [(''success'', JBool True),
           (''accountNumber'', JStr account_number),
           (''routingNumber'', JStr routing_number),
           (''accountType'', JStr ''Checking''),
           (''customerName'',
            JStr (format_value env (case map_of members ''firstName'' of None \<Rightarrow> JStr [] | Some x \<Rightarrow> x)
                  @ '' '' @
                  format_value env (case map_of members ''lastName'' of None \<Rightarrow> JStr [] | Some x \<Rightarrow> x))),
           (''message'', JStr ''Account created successfully!'')]"

definition account_metadata :: "metadata \<Rightarrow> string \<Rightarrow> string \<Rightarrow> metadata" where
  "account_metadata md account_number routing_number =
     md(''accountCreated'' \<mapsto> JBool True,
        ''accountNumber'' \<mapsto> JStr account_number,
        ''routingNumber'' \<mapsto> JStr routing_number,
        ''accountType'' \<mapsto> JStr ''Checking'')"

section \<open>Sample inputs\<close>

text \<open>
  An environment with the date 2025-06-01, distinct identifiers, the draws 0, 1, 2, ...
  and a given engine; the state of a process that has just started; two requests.
\<close>

definition sample_env :: "(nat \<Rightarrow> turn list \<Rightarrow> exn + assistant_message) \<Rightarrow> env" where
  "sample_env eng =
     \<lparr>env_today = \<lparr>year = 2025, month = 6, day = 1\<rparr>,
      env_uuid4 = (\<lambda>n. ''session-'' @ replicate (Suc n) CHR ''x''),
      env_random = (\<lambda>n. n),
      env_engine = eng,
      env_str = (\<lambda>j. ''None'')\<rparr>"

definition silent_engine :: "nat \<Rightarrow> turn list \<Rightarrow> exn + assistant_message" where
  "silent_engine n h = Inr \<lparr>content = None, tool_calls = []\<rparr>"

definition start :: world where
  "start = \<lparr>sessions = Map.empty, uuid_calls = 0, random_calls = 0, engine_calls = 0\<rparr>"



text \<open>
  A state with one session; engines that fail, that answer with three invocations and
  then with a text, that always ask for the agreement, that leave out an argument, and
  that send arguments that are no JSON in the tenth response.
\<close>

definition failing_engine :: "nat \<Rightarrow> turn list \<Rightarrow> exn + assistant_message" where
  "failing_engine n h = Inl (APIError ''Connection error.'')"

definition one_session :: world where
  "one_session = start\<lparr>sessions := [''abc'' \<mapsto> [System SYSTEM_PROMPT]]\<rparr>"

definition sample_calls :: "tool_call list" where
  "sample_calls =
     [\<lparr>call_id = ''call_1'', function_name = ''validate_field'',
       function_arguments = Json (JObj [(''field_name'', JStr ''zip''), (''value'', JStr ''62704'')])\<rparr>,
      \<lparr>call_id = ''call_2'', function_name = ''show_agreement'',
       function_arguments = Json (JObj [])\<rparr>,
      \<lparr>call_id = ''call_3'', function_name = ''create_account'',
       function_arguments = Json (JObj [(''firstName'', JStr ''Ada''), (''lastName'', JStr ''Lovelace'')])\<rparr>]"

definition scripted_engine :: "nat \<Rightarrow> turn list \<Rightarrow> exn + assistant_message" where
  "scripted_engine n h =
     (if n = 0 then Inr \<lparr>content = None, tool_calls = sample_calls\<rparr>
      else Inr \<lparr>content = Some ''Your account is open.'', tool_calls = []\<rparr>)"

definition looping_engine :: "nat \<Rightarrow> turn list \<Rightarrow> exn + assistant_message" where
  "looping_engine n h =
     Inr \<lparr>content = None,
          tool_calls = [\<lparr>call_id = ''call_1'', function_name = ''show_agreement'',
                         function_arguments = Json (JObj [])\<rparr>]\<rparr>"

definition incomplete_calls :: "tool_call list" where
  "incomplete_calls =
     [\<lparr>call_id = ''call_1'', function_name = ''show_agreement'',
       function_arguments = Json (JObj [])\<rparr>,
      \<lparr>call_id = ''call_2'', function_name = ''validate_field'',
       function_arguments = Json (JObj [(''field_name'', JStr ''zip'')])\<rparr>]"

definition incomplete_engine :: "nat \<Rightarrow> turn list \<Rightarrow> exn + assistant_message" where
  "incomplete_engine n h = Inr \<lparr>content = None, tool_calls = incomplete_calls\<rparr>"

definition agreement_call :: tool_call where
  "agreement_call =
     \<lparr>call_id = ''call_1'', function_name = ''show_agreement'', function_arguments = Json (JObj [])\<rparr>"

definition garbled_call :: tool_call where
  "garbled_call =
     \<lparr>call_id = ''call_2'', function_name = ''validate_field'', function_arguments = Malformed\<rparr>"

definition late_garbled_engine :: "nat \<Rightarrow> turn list \<Rightarrow> exn + assistant_message" where
  "late_garbled_engine n h =
     (if n < 9 then Inr \<lparr>content = None, tool_calls = [agreement_call]\<rparr>
      else Inr \<lparr>content = None, tool_calls = [garbled_call]\<rparr>)"

section \<open>The matcher decides the language of a pattern\<close>

lemma in_lang_Fail: "in_lang Fail s = False"
  by (induction s) auto

lemma in_lang_Or: "in_lang (Or a b) s = (in_lang a s \<or> in_lang b s)"
  by (induction s arbitrary: a b) auto

lemma in_lang_Empty: "in_lang Empty s = (s = [])"
  by (cases s) (auto simp: in_lang_Fail)

lemma in_lang_Class: "in_lang (Class P) s = (\<exists>c. s = [c] \<and> P c)"
  by (cases s) (auto simp: in_lang_Fail in_lang_Empty)

lemma in_lang_Cat:
  "in_lang (Cat a b) s = (\<exists>u v. s = u @ v \<and> in_lang a u \<and> in_lang b v)"
proof (induction s arbitrary: a)
  case Nil
  then show ?case by simp
next
  case (Cons c cs)
  have split: "(\<exists>u v. c # cs = u @ v \<and> in_lang a u \<and> in_lang b v) =
      ((nullable a \<and> in_lang (deriv c b) cs) \<or>
       (\<exists>u v. cs = u @ v \<and> in_lang (deriv c a) u \<and> in_lang b v))"
    (is "?L = ?R")
  proof
    assume ?L
    then obtain u v where uv: "c # cs = u @ v" "in_lang a u" "in_lang b v" by blast
    show ?R
    proof (cases u)
      case Nil
      with uv show ?thesis by auto
    next
      case (Cons x xs)
      with uv show ?thesis by auto
    qed
  next
    assume ?R
    then show ?L
    proof
      assume "nullable a \<and> in_lang (deriv c b) cs"
      then have "c # cs = [] @ (c # cs) \<and> in_lang a [] \<and> in_lang b (c # cs)" by simp
      then show ?L by blast
    next
      assume "\<exists>u v. cs = u @ v \<and> in_lang (deriv c a) u \<and> in_lang b v"
      then obtain u v where "cs = u @ v" "in_lang (deriv c a) u" "in_lang b v" by blast
      then have "c # cs = (c # u) @ v \<and> in_lang a (c # u) \<and> in_lang b v" by simp
      then show ?L by blast
    qed
  qed
  show ?case
    by (simp add: split in_lang_Or Cons.IH) blast
qed

lemma in_lang_Class_Cat:
  "in_lang (Cat (Class P) r) s = (\<exists>c cs. s = c # cs \<and> P c \<and> in_lang r cs)"
proof -
  have "(\<exists>u v. s = u @ v \<and> (\<exists>c. u = [c] \<and> P c) \<and> in_lang r v) =
        (\<exists>c cs. s = [c] @ cs \<and> P c \<and> in_lang r cs)"
    by blast
  then show ?thesis by (simp add: in_lang_Cat in_lang_Class)
qed

lemma in_lang_Cat_assoc: "in_lang (Cat (Cat a b) c) s = in_lang (Cat a (Cat b c)) s"
proof -
  have "(\<exists>u v. s = u @ v \<and> (\<exists>x y. u = x @ y \<and> in_lang a x \<and> in_lang b y) \<and> in_lang c v) =
        (\<exists>x w. s = x @ w \<and> in_lang a x \<and> (\<exists>y v. w = y @ v \<and> in_lang b y \<and> in_lang c v))"
    by (metis append.assoc)
  then show ?thesis by (simp add: in_lang_Cat)
qed

lemma in_lang_Empty_Cat: "in_lang (Cat Empty r) s = in_lang r s"
  by (simp add: in_lang_Cat in_lang_Empty)

lemma DOB_SLASH_RE_format: "in_lang DOB_SLASH_RE s = has_format ''MM/DD/YYYY'' s"
  unfolding DOB_SLASH_RE_def has_format_def Lit_def
  by (simp add: eval_nat_numeral in_lang_Cat_assoc in_lang_Class_Cat in_lang_Empty_Cat in_lang_Empty in_lang_Class list_all2_Cons1 is_ascii_letter_def code_point_def) 

lemma DOB_ISO_RE_format: "in_lang DOB_ISO_RE s = has_format ''YYYY-MM-DD'' s"
  unfolding DOB_ISO_RE_def has_format_def Lit_def
  by (simp add: eval_nat_numeral in_lang_Cat_assoc in_lang_Class_Cat in_lang_Empty_Cat in_lang_Empty in_lang_Class list_all2_Cons1 is_ascii_letter_def code_point_def) 

lemma last_py_strip: "py_strip s \<noteq> [] \<Longrightarrow> \<not> is_space (last (py_strip s))"
proof -
  let ?u = "dropWhile is_space (rev (dropWhile is_space s))"
  assume "py_strip s \<noteq> []"
  then have ne: "?u \<noteq> []" by (simp add: py_strip_def)
  then have "\<not> is_space (hd ?u)" by (rule hd_dropWhile)
  moreover have "last (py_strip s) = hd ?u" using ne by (simp add: py_strip_def last_rev)
  ultimately show ?thesis by simp
qed

lemma re_match_py_strip: "re_match r (py_strip s) = in_lang r (py_strip s)"
proof (cases "py_strip s = []")
  case True
  then show ?thesis by (simp add: re_match_def)
next
  case False
  then have "\<not> is_space (last (py_strip s))" by (rule last_py_strip)
  moreover have "is_space (CHR 0x0A)" by (simp add: is_space_def code_point_def)
  ultimately have "last (py_strip s) \<noteq> CHR 0x0A" by metis
  then show ?thesis by (simp add: re_match_def)
qed

section \<open>Properties of the field validation engine\<close>

lemma make_date_raises: "make_date y m d = Inl e \<Longrightarrow> e = ValueError"
  by (simp add: make_date_def split: if_splits)

lemma strptime_mdY_raises: "strptime_mdY s = Inl e \<Longrightarrow> e = ValueError"
  by (auto simp: strptime_mdY_def dest: make_date_raises split: if_splits)

lemma strptime_Ymd_raises: "strptime_Ymd s = Inl e \<Longrightarrow> e = ValueError"
  by (auto simp: strptime_Ymd_def dest: make_date_raises split: if_splits)

lemma well_formed_rejected: "m \<noteq> [] \<Longrightarrow> well_formed (rejected m)"
  by (simp add: well_formed_def rejected_def)

lemma well_formed_accepted: "well_formed (accepted v)"
  by (simp add: well_formed_def accepted_def)

lemma well_formed_check_age: "well_formed (check_age today v dob)"
  by (simp add: check_age_def Let_def well_formed_rejected well_formed_accepted)

lemma dob_slash_total:
  "\<exists>r. (case strptime_mdY v of
             Inl ValueError \<Rightarrow> Inr (rejected ''Invalid date. Use MM/DD/YYYY format.'')
           | Inl e \<Rightarrow> Inl e
           | Inr dob \<Rightarrow> Inr (check_age today v dob)) = Inr r \<and> well_formed r"
proof (cases "strptime_mdY v")
  case (Inl e)
  then have "e = ValueError" by (rule strptime_mdY_raises)
  with Inl show ?thesis by (simp add: well_formed_rejected)
next
  case (Inr dob)
  then show ?thesis by (simp add: well_formed_check_age)
qed

lemma dob_iso_total:
  "\<exists>r. (case strptime_Ymd v of
             Inl ValueError \<Rightarrow> Inr (rejected ''Invalid date. Use YYYY-MM-DD format.'')
           | Inl e \<Rightarrow> Inl e
           | Inr dob \<Rightarrow> Inr (check_age today v dob)) = Inr r \<and> well_formed r"
proof (cases "strptime_Ymd v")
  case (Inl e)
  then have "e = ValueError" by (rule strptime_Ymd_raises)
  with Inl show ?thesis by (simp add: well_formed_rejected)
next
  case (Inr dob)
  then show ?thesis by (simp add: well_formed_check_age)
qed

lemma field_name_cases:
  obtains "field_name = ''firstName''" | "field_name = ''lastName''" | "field_name = ''email''"
  | "field_name = ''phone''" | "field_name = ''dateOfBirth''" | "field_name = ''ssn''"
  | "field_name = ''street''" | "field_name = ''city''" | "field_name = ''state''"
  | "field_name = ''zip''" | "field_name \<notin> set FIELD_NAMES"
  unfolding FIELD_NAMES_def by fastforce

lemma validate_field_returns:
  "\<exists>r. validate_field today field_name value = Inr r \<and> well_formed r"
proof -
  let ?v = "py_strip value"
  note dob = dob_slash_total [where v = ?v and today = today]
    dob_iso_total [where v = ?v and today = today]
  note wf = well_formed_rejected well_formed_accepted
  show ?thesis
  proof (cases field_name rule: field_name_cases)
    case 1 then show ?thesis by (simp add: validate_field_def Let_def wf)
  next
    case 2 then show ?thesis by (simp add: validate_field_def Let_def wf)
  next
    case 3 then show ?thesis by (simp add: validate_field_def Let_def wf)
  next
    case 4 then show ?thesis by (simp add: validate_field_def Let_def wf)
  next
    case 5 then show ?thesis using dob by (simp add: validate_field_def Let_def wf)
  next
    case 6 then show ?thesis by (simp add: validate_field_def Let_def wf)
  next
    case 7 then show ?thesis by (simp add: validate_field_def Let_def wf)
  next
    case 8 then show ?thesis by (simp add: validate_field_def Let_def wf)
  next
    case 9 then show ?thesis by (simp add: validate_field_def Let_def wf)
  next
    case 10 then show ?thesis by (simp add: validate_field_def Let_def wf)
  next
    case 11 then show ?thesis by (simp add: validate_field_def FIELD_NAMES_def wf)
  qed
qed

lemma validate_field_unknown:
  "field_name \<notin> set FIELD_NAMES \<Longrightarrow>
     validate_field today field_name value = Inr (rejected (''Unknown field: '' @ field_name))"
  by (simp add: validate_field_def FIELD_NAMES_def)

lemma py_strip_blank: "list_all is_space value \<Longrightarrow> py_strip value = []"
  by (auto simp: py_strip_def list_all_iff dest: set_dropWhileD)

lemma py_upper_Nil: "py_upper [] = []" by (simp add: py_upper_def)

lemma validate_field_blank:
  assumes "py_strip value = []"
  shows "\<exists>m. validate_field today field_name value = Inr (rejected m)"
proof (cases field_name rule: field_name_cases)
    case 1 then show ?thesis using assms by (auto simp add: validate_field_def)
  next
    case 2 then show ?thesis using assms by (auto simp add: validate_field_def)
  next
    case 3 then show ?thesis using assms by (auto simp add: validate_field_def)
  next
    case 4 then show ?thesis using assms by (auto simp add: validate_field_def digits_only_def)
  next
    case 5 then show ?thesis using assms by (auto simp add: validate_field_def)
  next
    case 6 then show ?thesis using assms by (auto simp add: validate_field_def digits_only_def)
  next
    case 7 then show ?thesis using assms by (auto simp add: validate_field_def)
  next
    case 8 then show ?thesis using assms by (auto simp add: validate_field_def re_match_def NAME_RE_def Plus_def)
  next
    case 9 then show ?thesis using assms by (auto simp add: validate_field_def py_upper_Nil VALID_STATES_def)
  next
    case 10 then show ?thesis using assms by (auto simp add: validate_field_def re_match_def ZIP_RE_def eval_nat_numeral)
  next
    case 11 then show ?thesis by (auto simp add: validate_field_def FIELD_NAMES_def)
qed

text \<open>
  C3: for every field name and every input string (and every current date),
  \<open>validate_field\<close> returns a result and raises nothing; the result is well formed
  (valid, message and, exactly when valid, the cleaned value). A name outside the ten
  fields gives the invalid result with the message \<open>Unknown field: \<close> and the name; an
  empty or whitespace-only value gives an invalid result. The result depends on nothing
  but the two arguments and the current date.
\<close>

theorem validate_field_total:
  "\<exists>r. validate_field today field_name value = Inr r
     \<and> well_formed r
     \<and> (field_name \<notin> set FIELD_NAMES \<longrightarrow> r = rejected (''Unknown field: '' @ field_name))
     \<and> (list_all is_space value \<longrightarrow> \<not> valid r)"
proof -
  obtain r where r: "validate_field today field_name value = Inr r" "well_formed r"
    using validate_field_returns by blast
  have "r = rejected (''Unknown field: '' @ field_name)" if "field_name \<notin> set FIELD_NAMES"
    using validate_field_unknown [OF that, of today "value"] r by simp
  moreover have "\<not> valid r" if "list_all is_space value"
  proof -
    from that have "py_strip value = []" by (rule py_strip_blank)
    then obtain m where "validate_field today field_name value = Inr (rejected m)"
      using validate_field_blank by blast
    with r have "r = rejected m" by simp
    then show ?thesis by (simp add: rejected_def)
  qed
  ultimately show ?thesis using r by blast
qed

theorem validate_field_total_witness:
  "''nickname'' \<notin> set FIELD_NAMES \<and> list_all is_space ''  ''
   \<and> validate_field \<lparr>year = 2025, month = 6, day = 1\<rparr> ''nickname'' ''  '' =
       Inr (rejected ''Unknown field: nickname'')"
  using validate_field_total [of "\<lparr>year = 2025, month = 6, day = 1\<rparr>" "''nickname''" "''  ''"]
  by (auto simp: FIELD_NAMES_def is_space_def code_point_def)

lemma cleaned_value_check_age:
  "cleaned_value (check_age today v \<lparr>year = y, month = m, day = d\<rparr>) =
     (let before_birthday = (month today < m \<or> (month today = m \<and> day today < d));
          age = year today - y - (if before_birthday then 1 else 0)
      in if age < 18 \<or> age > 120 then None else Some v)"
  by (auto simp: check_age_def age_on_def Let_def rejected_def accepted_def)

lemma valid_check_age: "valid (check_age today v dob) = (cleaned_value (check_age today v dob) \<noteq> None)"
  by (auto simp: check_age_def Let_def rejected_def accepted_def)

lemma make_date_calendar:
  "make_date y m d =
     (if calendar_date y m d then Inr \<lparr>year = y, month = m, day = d\<rparr> else Inl ValueError)"
  by (simp add: make_date_def calendar_date_def)

lemma dob_branch:
  "\<exists>r. (case make_date y m d of
          Inl ValueError \<Rightarrow> Inr (rejected txt)
        | Inl e \<Rightarrow> Inl e
        | Inr dob \<Rightarrow> Inr (check_age today v dob)) = Inr r
     \<and> cleaned_value r =
         (if calendar_date y m d then
            (let before_birthday = (month today < m \<or> (month today = m \<and> day today < d));
                 age = year today - y - (if before_birthday then 1 else 0)
             in if age < 18 \<or> age > 120 then None else Some v)
          else None)
     \<and> valid r = (cleaned_value r \<noteq> None)"
proof (cases "calendar_date y m d")
  case True
  then show ?thesis
    by (simp only: make_date_calendar if_True sum.case sum.inject ex_simps simp_thms
        cleaned_value_check_age valid_check_age)
next
  case False
  then show ?thesis
    by (simp add: make_date_calendar rejected_def)
qed

lemma validate_field_dob:
  "\<exists>r. validate_field today ''dateOfBirth'' value = Inr r
       \<and> cleaned_value r = date_of_birth_rule today (py_strip value)
       \<and> valid r = (cleaned_value r \<noteq> None)"
proof -
  let ?v = "py_strip value"
  have fmt: "re_match DOB_SLASH_RE ?v = has_format ''MM/DD/YYYY'' ?v"
    "re_match DOB_ISO_RE ?v = has_format ''YYYY-MM-DD'' ?v"
    by (simp_all add: re_match_py_strip DOB_SLASH_RE_format DOB_ISO_RE_format)
  have empty: "read_date [] = None"
    by (simp add: read_date_def has_format_def)
  consider (blank) "?v = []"
    | (slash) "?v \<noteq> []" "has_format ''MM/DD/YYYY'' ?v"
    | (iso) "?v \<noteq> []" "\<not> has_format ''MM/DD/YYYY'' ?v" "has_format ''YYYY-MM-DD'' ?v"
    | (other) "?v \<noteq> []" "\<not> has_format ''MM/DD/YYYY'' ?v" "\<not> has_format ''YYYY-MM-DD'' ?v"
    by blast
  then show ?thesis
  proof cases
    case blank
    then show ?thesis
      by (simp add: validate_field_def date_of_birth_rule_def empty rejected_def)
  next
    case slash
    have code: "validate_field today ''dateOfBirth'' value =
        (case make_date (int_of_digits (drop 6 ?v)) (int_of_digits (take 2 ?v))
                (int_of_digits (take 2 (drop 3 ?v))) of
           Inl ValueError \<Rightarrow> Inr (rejected ''Invalid date. Use MM/DD/YYYY format.'')
         | Inl e \<Rightarrow> Inl e
         | Inr dob \<Rightarrow> Inr (check_age today ?v dob))"
      using slash by (simp add: validate_field_def Let_def fmt strptime_mdY_def DOB_SLASH_RE_format)
    have rule: "date_of_birth_rule today ?v =
        (if calendar_date (int_of_digits (drop 6 ?v)) (int_of_digits (take 2 ?v))
                (int_of_digits (take 2 (drop 3 ?v))) then
            (let before_birthday = (month today < int_of_digits (take 2 ?v) \<or>
                   (month today = int_of_digits (take 2 ?v) \<and>
                    day today < int_of_digits (take 2 (drop 3 ?v))));
                 age = year today - int_of_digits (drop 6 ?v) - (if before_birthday then 1 else 0)
             in if age < 18 \<or> age > 120 then None else Some ?v)
          else None)"
      using slash by (simp add: date_of_birth_rule_def read_date_def)
    show ?thesis unfolding code rule by (rule dob_branch)
  next
    case iso
    have code: "validate_field today ''dateOfBirth'' value =
        (case make_date (int_of_digits (take 4 ?v)) (int_of_digits (take 2 (drop 5 ?v)))
                (int_of_digits (drop 8 ?v)) of
           Inl ValueError \<Rightarrow> Inr (rejected ''Invalid date. Use YYYY-MM-DD format.'')
         | Inl e \<Rightarrow> Inl e
         | Inr dob \<Rightarrow> Inr (check_age today ?v dob))"
      using iso by (simp add: validate_field_def Let_def fmt strptime_Ymd_def DOB_ISO_RE_format)
    have rule: "date_of_birth_rule today ?v =
        (if calendar_date (int_of_digits (take 4 ?v)) (int_of_digits (take 2 (drop 5 ?v)))
                (int_of_digits (drop 8 ?v)) then
            (let before_birthday = (month today < int_of_digits (take 2 (drop 5 ?v)) \<or>
                   (month today = int_of_digits (take 2 (drop 5 ?v)) \<and>
                    day today < int_of_digits (drop 8 ?v)));
                 age = year today - int_of_digits (take 4 ?v) - (if before_birthday then 1 else 0)
             in if age < 18 \<or> age > 120 then None else Some ?v)
          else None)"
      using iso by (simp add: date_of_birth_rule_def read_date_def)
    show ?thesis unfolding code rule by (rule dob_branch)
  next
    case other
    then show ?thesis
      by (simp add: validate_field_def fmt date_of_birth_rule_def read_date_def rejected_def)
  qed
qed

text \<open>
  C5 (as amended): the dateOfBirth validator trims the input and accepts the trimmed
  string exactly when it has the format MM/DD/YYYY or YYYY-MM-DD, names a date of the
  calendar, and the age on the current date (the difference of the years, less one when
  the current month and day come before those of the birth) is at least 18 and at most
  120; the cleaned value is the trimmed string. With the current date 2025-06-01,
  \<open>01/01/2000\<close> is accepted, at age 25, and \<open>01/01/2010\<close> is rejected as under 18.
\<close>

theorem validate_field_date_of_birth:
  "(\<exists>r. validate_field today ''dateOfBirth'' value = Inr r
       \<and> cleaned_value r = date_of_birth_rule today (py_strip value)
       \<and> valid r = (cleaned_value r \<noteq> None))
   \<and> validate_field \<lparr>year = 2025, month = 6, day = 1\<rparr> ''dateOfBirth'' ''01/01/2000'' =
       Inr (accepted ''01/01/2000'')
   \<and> strptime_mdY ''01/01/2000'' = Inr \<lparr>year = 2000, month = 1, day = 1\<rparr>
   \<and> age_on \<lparr>year = 2025, month = 6, day = 1\<rparr> \<lparr>year = 2000, month = 1, day = 1\<rparr> = 25
   \<and> validate_field \<lparr>year = 2025, month = 6, day = 1\<rparr> ''dateOfBirth'' ''01/01/2010'' =
       Inr (rejected ''You must be at least 18 years old.'')"
proof -
  have "validate_field \<lparr>year = 2025, month = 6, day = 1\<rparr> ''dateOfBirth'' ''01/01/2000'' =
      Inr (accepted ''01/01/2000'')"
    by code_simp
  moreover have "strptime_mdY ''01/01/2000'' = Inr \<lparr>year = 2000, month = 1, day = 1\<rparr>"
    by code_simp
  moreover have
    "age_on \<lparr>year = 2025, month = 6, day = 1\<rparr> \<lparr>year = 2000, month = 1, day = 1\<rparr> = 25"
    by code_simp
  moreover have
    "validate_field \<lparr>year = 2025, month = 6, day = 1\<rparr> ''dateOfBirth'' ''01/01/2010'' =
      Inr (rejected ''You must be at least 18 years old.'')"
    by code_simp
  ultimately show ?thesis using validate_field_dob by blast
qed

theorem validate_field_date_of_birth_witness:
  "\<exists>r. validate_field \<lparr>year = 2025, month = 6, day = 1\<rparr> ''dateOfBirth'' '' 1990-12-31 '' = Inr r
     \<and> cleaned_value r = Some ''1990-12-31'' \<and> valid r"
proof -
  have "date_of_birth_rule \<lparr>year = 2025, month = 6, day = 1\<rparr> (py_strip '' 1990-12-31 '') =
      Some ''1990-12-31''"
    by code_simp
  then show ?thesis
    using validate_field_date_of_birth
      [of "\<lparr>year = 2025, month = 6, day = 1\<rparr>" "'' 1990-12-31 ''"]
    by auto
qed

text \<open>
  The claim as first stated fails on an input with a space before the date: the input
  has neither format, it is accepted, and the cleaned value is not the input.
\<close>

theorem validate_field_date_of_birth_counterexample:
  "validate_field \<lparr>year = 2025, month = 6, day = 1\<rparr> ''dateOfBirth'' '' 01/01/2000'' =
     Inr \<lparr>valid = True, message = ''Valid'', cleaned_value = Some ''01/01/2000''\<rparr>
   \<and> ''01/01/2000'' \<noteq> '' 01/01/2000''
   \<and> \<not> has_format ''MM/DD/YYYY'' '' 01/01/2000''
   \<and> \<not> has_format ''YYYY-MM-DD'' '' 01/01/2000''"
  by code_simp

section \<open>The two validation paths\<close>

lemma same_decision_simps:
  "same_decision (Inl m) (Inr (rejected m'))"
  "same_decision (Inr c) (Inr (accepted c))"
  by (simp_all add: same_decision_def rejected_def accepted_def)

lemma filter_dropWhile_disjoint:
  "(\<And>x. Q x \<Longrightarrow> \<not> P x) \<Longrightarrow> filter P (dropWhile Q xs) = filter P xs"
  by (induction xs) auto

lemma digit_not_space: "is_space c \<Longrightarrow> \<not> is_digit c"
  by (auto simp: is_space_def is_digit_def Let_def)

lemma digits_only_py_strip: "digits_only (py_strip v) = digits_only v"
proof -
  have "filter is_digit (dropWhile is_space (rev (dropWhile is_space v))) =
      filter is_digit (rev (dropWhile is_space v))"
    by (rule filter_dropWhile_disjoint) (rule digit_not_space)
  moreover have "filter is_digit (dropWhile is_space v) = filter is_digit v"
    by (rule filter_dropWhile_disjoint) (rule digit_not_space)
  ultimately show ?thesis
    by (simp add: digits_only_def py_strip_def rev_filter [symmetric])
qed

lemma same_first_name:
  "same_decision (validate_first_name value) (validate_field today ''firstName'' value)"
  by (simp add: validate_first_name_def validate_field_def Let_def same_decision_simps)

lemma same_last_name:
  "same_decision (validate_last_name value) (validate_field today ''lastName'' value)"
  by (simp add: validate_last_name_def validate_field_def Let_def same_decision_simps)

lemma same_email:
  "same_decision (validate_email value) (validate_field today ''email'' value)"
  by (simp add: validate_email_def validate_field_def Let_def same_decision_simps
      re_match_def EMAIL_RE_def Plus_def)

lemma same_phone:
  "same_decision (validate_phone value) (validate_field today ''phone'' value)"
  by (simp add: validate_phone_def validate_field_def Let_def same_decision_simps
      digits_only_py_strip)

lemma same_ssn:
  "same_decision (validate_ssn value) (validate_field today ''ssn'' value)"
  by (simp add: validate_ssn_def validate_field_def Let_def same_decision_simps
      digits_only_py_strip)

lemma same_street:
  "same_decision (validate_street value) (validate_field today ''street'' value)"
  by (simp add: validate_street_def validate_field_def Let_def same_decision_simps)

lemma same_city:
  "same_decision (validate_city value) (validate_field today ''city'' value)"
  by (simp add: validate_city_def validate_field_def Let_def same_decision_simps)

lemma same_state:
  "same_decision (validate_state value) (validate_field today ''state'' value)"
  by (simp add: validate_state_def validate_field_def Let_def same_decision_simps)

lemma same_zip:
  "same_decision (validate_zip value) (validate_field today ''zip'' value)"
  by (simp add: validate_zip_def validate_field_def Let_def same_decision_simps)

lemma same_check_age:
  "same_decision
     (let age = age_on today dob in
      if age < 18 then Inl ''You must be at least 18 years old to open an account.''
      else if age > 120 then Inl ''Please provide a valid date of birth.''
      else Inr v)
     (Inr (check_age today v dob))"
  by (simp add: check_age_def Let_def same_decision_simps)

lemma same_dob:
  "same_decision (validate_dob today value) (validate_field today ''dateOfBirth'' value)"
proof -
  let ?v = "py_strip value"
  have no_match: "\<not> re_match DOB_SLASH_RE []" "\<not> re_match DOB_ISO_RE []"
    by (simp_all add: re_match_def DOB_SLASH_RE_def DOB_ISO_RE_def eval_nat_numeral)
  consider (blank) "?v = []"
    | (slash) "?v \<noteq> []" "re_match DOB_SLASH_RE ?v"
    | (iso) "?v \<noteq> []" "\<not> re_match DOB_SLASH_RE ?v" "re_match DOB_ISO_RE ?v"
    | (other) "?v \<noteq> []" "\<not> re_match DOB_SLASH_RE ?v" "\<not> re_match DOB_ISO_RE ?v"
    by blast
  then show ?thesis
  proof cases
    case blank
    then show ?thesis
      by (simp add: validate_dob_def validate_field_def no_match same_decision_simps)
  next
    case slash
    show ?thesis
    proof (cases "strptime_mdY ?v")
      case (Inl e)
      then have "e = ValueError" by (rule strptime_mdY_raises)
      with Inl slash show ?thesis
        by (simp add: validate_dob_def validate_field_def Let_def same_decision_simps)
    next
      case (Inr dob)
      with slash show ?thesis
        using same_check_age [of today dob ?v]
        by (simp add: validate_dob_def validate_field_def Let_def)
    qed
  next
    case iso
    show ?thesis
    proof (cases "strptime_Ymd ?v")
      case (Inl e)
      then have "e = ValueError" by (rule strptime_Ymd_raises)
      with Inl iso show ?thesis
        by (simp add: validate_dob_def validate_field_def Let_def same_decision_simps)
    next
      case (Inr dob)
      with iso show ?thesis
        using same_check_age [of today dob ?v]
        by (simp add: validate_dob_def validate_field_def Let_def)
    qed
  next
    case other
    then show ?thesis
      by (simp add: validate_dob_def validate_field_def Let_def same_decision_simps)
  qed
qed

lemmas same_fields = same_first_name same_last_name same_email same_phone same_dob same_ssn
  same_street same_city same_state same_zip

text \<open>
  C4: for each of the ten fields and every input string, the validator main.py declares
  for the field and \<open>validate_field\<close> of agent.py on that field name take the same
  decision: both reject, or both accept with the same cleaned value. The table of the
  validators of main.py names exactly the ten fields.
\<close>

theorem validation_paths_agree:
  "map fst (FIELD_VALIDATORS today) = FIELD_NAMES
   \<and> (\<forall>(field_name, validator) \<in> set (FIELD_VALIDATORS today).
        \<forall>value. same_decision (validator value) (validate_field today field_name value))"
  by (simp add: FIELD_VALIDATORS_def FIELD_NAMES_def same_fields)

theorem validation_paths_agree_witness:
  "(''phone'', validate_phone) \<in> set (FIELD_VALIDATORS \<lparr>year = 2025, month = 6, day = 1\<rparr>)
   \<and> same_decision (validate_phone ''(555) 123-4567'')
        (validate_field \<lparr>year = 2025, month = 6, day = 1\<rparr> ''phone'' ''(555) 123-4567'')
   \<and> validate_phone ''(555) 123-4567'' = Inr ''5551234567''"
proof -
  have "validate_phone ''(555) 123-4567'' = Inr ''5551234567''" by code_simp
  moreover have "(''phone'', validate_phone) \<in> set (FIELD_VALIDATORS \<lparr>year = 2025, month = 6, day = 1\<rparr>)"
    by (simp add: FIELD_VALIDATORS_def)
  ultimately show ?thesis
    using validation_paths_agree [of "\<lparr>year = 2025, month = 6, day = 1\<rparr>"] by blast
qed

section \<open>Direct account creation\<close>












lemma DIGITS_nth: "i < 10 \<Longrightarrow> is_digit (DIGITS ! i)"
proof -
  have "list_all is_digit DIGITS" by code_simp
  moreover have "length DIGITS = 10" by (simp add: DIGITS_def)
  ultimately show "i < 10 \<Longrightarrow> is_digit (DIGITS ! i)" by (simp add: list_all_length)
qed

lemma random_choices_DIGITS:
  "random_choices env DIGITS k w = (ds, w') \<Longrightarrow>
     length ds = k \<and> list_all is_digit ds \<and> w' = w\<lparr>random_calls := random_calls w + k\<rparr>"
proof -
  assume "random_choices env DIGITS k w = (ds, w')"
  then have ds: "ds = map (\<lambda>i. DIGITS ! (env_random env (random_calls w + i) mod length DIGITS)) [0..<k]"
    and w': "w' = w\<lparr>random_calls := random_calls w + k\<rparr>"
    by (simp_all add: random_choices_def)
  have "length DIGITS = 10" by (simp add: DIGITS_def)
  then have "list_all is_digit ds" unfolding ds by (simp add: list_all_iff DIGITS_nth)
  with ds w' show ?thesis by simp
qed







section \<open>State, tools and the loop: what changes and what does not\<close>

lemma history_of_append_turn:
  "history_of (append_turn sid t w) k = (if k = sid then history_of w sid @ [t] else history_of w k)"
  by (simp add: append_turn_def history_of_def)

lemma append_turn_counts:
  "engine_calls (append_turn sid t w) = engine_calls w"
  "random_calls (append_turn sid t w) = random_calls w"
  "uuid_calls (append_turn sid t w) = uuid_calls w"
  by (simp_all add: append_turn_def)

lemma sessions_append_turn:
  "sessions (append_turn sid t w) = (sessions w)(sid \<mapsto> history_of w sid @ [t])"
  by (simp add: append_turn_def)

lemma create_account_frame:
  "create_account env data w = (r, w') \<Longrightarrow> w' = w\<lparr>random_calls := random_calls w + 19\<rparr>"
  by (auto simp: create_account_def random_choices_def Let_def split: sum.splits)

lemma execute_tool_frame:
  "execute_tool env tool_name arguments w = (r, w') \<Longrightarrow>
     sessions w' = sessions w \<and> engine_calls w' = engine_calls w \<and> uuid_calls w' = uuid_calls w"
  by (auto simp: execute_tool_def split: if_splits sum.splits prod.splits dest!: create_account_frame)

lemma call_validate_field_raises:
  "call_validate_field env f v = Inl e \<Longrightarrow> \<not> (\<exists>s. v = JStr s)"
proof
  assume raised: "call_validate_field env f v = Inl e" and "\<exists>s. v = JStr s"
  then obtain s where s: "v = JStr s" by blast
  show False
  proof (cases "\<exists>n. f = JStr n")
    case True
    then obtain n where "f = JStr n" by blast
    with raised s validate_field_returns [of "env_today env" n s] show False
      by (auto simp: call_validate_field_def)
  next
    case False
    with raised s show False
      by (cases f) (auto simp: call_validate_field_def)
  qed
qed

lemma call_validate_field_returns:
  "\<exists>r. call_validate_field env f (JStr s) = Inr r"
  using call_validate_field_raises [of env f "JStr s"]
  by (cases "call_validate_field env f (JStr s)") auto

lemma create_account_JObj:
  "\<exists>r. create_account env (JObj members) w = (Inr (JObj r), w\<lparr>random_calls := random_calls w + 19\<rparr>)
     \<and> map_of r ''success'' = Some (JBool True)
     \<and> map_of r ''accountNumber'' = Some (JStr (fst (random_choices env DIGITS 10 w)))
     \<and> map_of r ''routingNumber'' =
          Some (JStr (fst (random_choices env DIGITS 9 (snd (random_choices env DIGITS 10 w)))))
     \<and> map_of r ''accountType'' = Some (JStr ''Checking'')
     \<and> map_of r ''customerName'' =
          Some (JStr (format_value env (case map_of members ''firstName'' of None \<Rightarrow> JStr [] | Some x \<Rightarrow> x)
                 @ '' '' @
                 format_value env (case map_of members ''lastName'' of None \<Rightarrow> JStr [] | Some x \<Rightarrow> x)))"
  by (auto simp: create_account_def dict_get_def random_choices_def Let_def split: option.splits)

lemma run_call_well_formed:
  "call_well_formed tc \<Longrightarrow> \<exists>r w1. run_call env tc w = (Inr r, w1)"
proof -
  assume wf: "call_well_formed tc"
  then obtain fn_args where args: "function_arguments tc = Json fn_args"
    by (cases "function_arguments tc") (simp_all add: call_well_formed_def)
  consider (validate) "function_name tc = ''validate_field''"
    | (create) "function_name tc \<noteq> ''validate_field''" "function_name tc = ''create_account''"
    | (other) "function_name tc \<noteq> ''validate_field''" "function_name tc \<noteq> ''create_account''"
    by blast
  then show ?thesis
  proof cases
    case validate
    with wf args obtain members f v where
      m: "fn_args = JObj members" "map_of members ''field_name'' = Some f"
         "map_of members ''value'' = Some (JStr v)"
      by (auto simp: call_well_formed_def split: json.splits option.splits)
    obtain r where "call_validate_field env f (JStr v) = Inr r"
      using call_validate_field_returns by blast
    with validate args m show ?thesis
      by (simp add: run_call_def json_loads_def execute_tool_def subscript_def)
  next
    case create
    with wf args obtain members where m: "fn_args = JObj members"
      by (auto simp: call_well_formed_def split: json.splits)
    from create_account_JObj [of env members w] obtain r where
      "create_account env (JObj members) w = (Inr (JObj r), w\<lparr>random_calls := random_calls w + 19\<rparr>)"
      by blast
    with create args m show ?thesis
      by (simp add: run_call_def json_loads_def execute_tool_def)
  next
    case other
    with args show ?thesis
      by (simp add: run_call_def json_loads_def execute_tool_def)
  qed
qed

lemma run_call_raises:
  "\<not> call_well_formed tc \<Longrightarrow> \<exists>e w1. run_call env tc w = (Inl e, w1)"
proof -
  assume bad: "\<not> call_well_formed tc"
  show ?thesis
  proof (cases "function_arguments tc")
    case Malformed
    then show ?thesis by (simp add: run_call_def json_loads_def)
  next
    case (Json fn_args)
    consider (validate) "function_name tc = ''validate_field''"
      | (create) "function_name tc \<noteq> ''validate_field''" "function_name tc = ''create_account''"
      using bad Json by (cases "function_name tc = ''validate_field''";
          cases "function_name tc = ''create_account''") (simp_all add: call_well_formed_def)
    then show ?thesis
    proof cases
      case validate
      show ?thesis
      proof (cases "subscript fn_args ''field_name''")
        case (Inl e)
        with validate Json show ?thesis
          by (simp add: run_call_def json_loads_def execute_tool_def)
      next
        case f: (Inr f)
        show ?thesis
        proof (cases "subscript fn_args ''value''")
          case (Inl e)
          with validate Json f show ?thesis
            by (simp add: run_call_def json_loads_def execute_tool_def)
        next
          case v: (Inr v)
          from f v bad Json validate have "\<not> (\<exists>s. v = JStr s)"
            by (auto simp: call_well_formed_def subscript_def split: json.splits option.splits)
          then have "call_validate_field env f v = Inl AttributeError"
            by (cases v) (auto simp: call_validate_field_def)
          with validate Json f v show ?thesis
            by (simp add: run_call_def json_loads_def execute_tool_def)
        qed
      qed
    next
      case create
      with bad Json have "\<not> (\<exists>members. fn_args = JObj members)"
        by (auto simp: call_well_formed_def)
      then have "dict_get fn_args ''firstName'' (JStr []) = Inl AttributeError"
        by (cases fn_args) (auto simp: dict_get_def)
      then have "\<exists>w1. create_account env fn_args w = (Inl AttributeError, w1)"
        by (simp add: create_account_def Let_def split: prod.splits)
      with create Json show ?thesis
        by (auto simp: run_call_def json_loads_def execute_tool_def)
    qed
  qed
qed

lemma extends_refl: "extends w w"
  by (simp add: extends_def)

lemma extends_trans: "extends w w1 \<Longrightarrow> extends w1 w2 \<Longrightarrow> extends w w2"
  unfolding extends_def by (metis append.assoc)

lemma extends_same_sessions: "sessions w' = sessions w \<Longrightarrow> extends w w'"
  by (simp add: extends_def)

lemma extends_append_turn: "extends w (append_turn sid t w)"
  by (auto simp: extends_def append_turn_def history_of_def)

lemma run_call_frame:
  "run_call env tc w = (r, w') \<Longrightarrow>
     sessions w' = sessions w \<and> engine_calls w' = engine_calls w \<and> uuid_calls w' = uuid_calls w"
  by (auto simp: run_call_def split: sum.splits dest: execute_tool_frame)

lemma execute_tool_calls_step:
  "execute_tool_calls env sid (tc # rest) md w =
     (case run_call env tc w of
        (Inl e, w1) \<Rightarrow> (Inl e, w1)
      | (Inr tool_result, w1) \<Rightarrow>
          (case capture_metadata (function_name tc) tool_result md of
             Inl e \<Rightarrow> (Inl e, w1)
           | Inr md1 \<Rightarrow>
               execute_tool_calls env sid rest md1
                 (append_turn sid (Tool (call_id tc) tool_result) w1)))"
  by (simp add: run_call_def Let_def split: sum.splits)

lemma execute_tool_calls_extends:
  "execute_tool_calls env sid calls md w = (r, w') \<Longrightarrow>
     extends w w' \<and> engine_calls w' = engine_calls w \<and> uuid_calls w' = uuid_calls w"
proof (induction calls arbitrary: md w)
  case Nil
  then show ?case by (simp add: extends_refl)
next
  case (Cons tc rest)
  note prem = Cons.prems [unfolded execute_tool_calls_step]
  obtain r1 w1 where run: "run_call env tc w = (r1, w1)" by (cases "run_call env tc w")
  then have frame: "sessions w1 = sessions w" "engine_calls w1 = engine_calls w"
      "uuid_calls w1 = uuid_calls w"
    using run_call_frame by blast+
  show ?case
  proof (cases r1)
    case (Inl e)
    with prem run frame show ?thesis
      by (simp add: extends_same_sessions)
  next
    case result: (Inr tool_result)
    show ?thesis
    proof (cases "capture_metadata (function_name tc) tool_result md")
      case (Inl e)
      with prem run result frame show ?thesis
        by (simp add: extends_same_sessions)
    next
      case (Inr md1)
      let ?w2 = "append_turn sid (Tool (call_id tc) tool_result) w1"
      from prem run result Inr
      have "execute_tool_calls env sid rest md1 ?w2 = (r, w')"
        by simp
      then have "extends ?w2 w'" "engine_calls w' = engine_calls ?w2" "uuid_calls w' = uuid_calls ?w2"
        using Cons.IH by blast+
      moreover have "extends w ?w2"
        using extends_same_sessions [OF frame(1)] extends_append_turn extends_trans by blast
      ultimately show ?thesis
        using frame by (auto simp: append_turn_counts intro: extends_trans)
    qed
  qed
qed

lemma loop_body_extends:
  "loop_body env sid md w = (r, w') \<Longrightarrow>
     extends w w' \<and> engine_calls w' = engine_calls w + 1 \<and> uuid_calls w' = uuid_calls w"
proof -
  assume body: "loop_body env sid md w = (r, w')"
  let ?w1 = "w\<lparr>engine_calls := engine_calls w + 1\<rparr>"
  have w1: "extends w ?w1" by (simp add: extends_same_sessions)
  show ?thesis
  proof (cases "env_engine env (engine_calls w) (history_of w sid)")
    case (Inl e)
    with body w1 show ?thesis by (auto simp: loop_body_def)
  next
    case (Inr m)
    show ?thesis
    proof (cases "tool_calls m = []")
      case True
      with body Inr have "w' = append_turn sid (Assistant (case content m of None \<Rightarrow> [] | Some c \<Rightarrow> c)) ?w1"
        by (auto simp: loop_body_def Let_def)
      then show ?thesis
        using w1 extends_append_turn extends_trans by (auto simp: append_turn_counts)
    next
      case False
      let ?w2 = "append_turn sid (AssistantToolCalls (content m) (tool_calls m)) ?w1"
      obtain r3 w3 where run: "execute_tool_calls env sid (tool_calls m) md ?w2 = (r3, w3)"
        by (cases "execute_tool_calls env sid (tool_calls m) md ?w2")
      with body Inr False have "w' = w3"
        by (auto simp: loop_body_def Let_def split: sum.splits)
      moreover from run have "extends ?w2 w3" "engine_calls w3 = engine_calls ?w2"
          "uuid_calls w3 = uuid_calls ?w2"
        using execute_tool_calls_extends by blast+
      moreover have "extends w ?w2" using w1 extends_append_turn extends_trans by blast
      ultimately show ?thesis by (auto simp: append_turn_counts intro: extends_trans)
    qed
  qed
qed

lemma agent_loop_extends:
  "agent_loop env sid n md w = (r, w') \<Longrightarrow>
     extends w w' \<and> engine_calls w' \<le> engine_calls w + n \<and> uuid_calls w' = uuid_calls w"
proof (induction n arbitrary: md w)
  case 0
  then show ?case by (auto simp: extends_append_turn append_turn_counts)
next
  case (Suc n)
  obtain s w1 where body: "loop_body env sid md w = (s, w1)" by (cases "loop_body env sid md w")
  then have step: "extends w w1" "engine_calls w1 = engine_calls w + 1" "uuid_calls w1 = uuid_calls w"
    using loop_body_extends by blast+
  show ?case
  proof (cases s)
    case (Raise e)
    with Suc.prems body step show ?thesis by auto
  next
    case (Return res)
    with Suc.prems body step show ?thesis by auto
  next
    case (Continue md1)
    with Suc.prems body have "agent_loop env sid n md1 w1 = (r, w')" by simp
    then have "extends w1 w'" "engine_calls w' \<le> engine_calls w1 + n" "uuid_calls w' = uuid_calls w1"
      using Suc.IH by blast+
    with step show ?thesis by (auto intro: extends_trans)
  qed
qed

lemma get_or_create_session_extends:
  assumes "get_or_create_session env session_id w = (sid, w1)"
    and "session_id = None \<or> session_id = Some [] \<Longrightarrow> env_uuid4 env (uuid_calls w) \<notin> dom (sessions w)"
  shows "extends w w1"
proof (cases "session_id = None \<or> session_id = Some []")
  case True
  with assms(1) have "w1 = w\<lparr>uuid_calls := uuid_calls w + 1,
      sessions := (sessions w)(env_uuid4 env (uuid_calls w) \<mapsto> [System SYSTEM_PROMPT])\<rparr>"
    by (auto simp: get_or_create_session_def uuid4_str_def)
  with assms(2) [OF True] show ?thesis by (auto simp: extends_def)
next
  case False
  then obtain s where s: "session_id = Some s" "s \<noteq> []" by auto
  show ?thesis
  proof (cases "s \<in> dom (sessions w)")
    case True
    with assms(1) s show ?thesis by (simp add: get_or_create_session_def extends_refl)
  next
    case False
    with assms(1) s have "w1 = w\<lparr>sessions := (sessions w)(s \<mapsto> [System SYSTEM_PROMPT])\<rparr>"
      by (auto simp: get_or_create_session_def)
    with False show ?thesis by (auto simp: extends_def)
  qed
qed

lemma process_message_unfold:
  "process_message env session_id user_message w =
     agent_loop env (fst (get_or_create_session env session_id w)) MAX_ITERATIONS Map.empty
       (append_turn (fst (get_or_create_session env session_id w)) (User user_message)
          (snd (get_or_create_session env session_id w)))"
  by (simp add: process_message_def split: prod.splits)

lemma process_message_extends:
  assumes "process_message env session_id user_message w = (r, w')"
    and "session_id = None \<or> session_id = Some [] \<Longrightarrow> env_uuid4 env (uuid_calls w) \<notin> dom (sessions w)"
  shows "extends w w'"
proof -
  obtain sid w1 where g: "get_or_create_session env session_id w = (sid, w1)"
    by (cases "get_or_create_session env session_id w")
  then have "extends w w1" using assms(2) by (rule get_or_create_session_extends)
  moreover have "extends w1 (append_turn sid (User user_message) w1)"
    by (rule extends_append_turn)
  moreover from assms(1) g
  have "agent_loop env sid MAX_ITERATIONS Map.empty (append_turn sid (User user_message) w1) = (r, w')"
    by (simp add: process_message_unfold)
  then have "extends (append_turn sid (User user_message) w1) w'"
    using agent_loop_extends by blast
  ultimately show ?thesis by (blast intro: extends_trans)
qed

lemma process_message_known:
  assumes "sid \<noteq> []" "sessions w sid = Some h"
    and "process_message env (Some sid) user_message w = (r, w')"
  shows "\<exists>new. sessions w' sid = Some (h @ User user_message # new)"
proof -
  from assms(1,2) have g: "get_or_create_session env (Some sid) w = (sid, w)"
    by (auto simp: get_or_create_session_def)
  let ?w2 = "append_turn sid (User user_message) w"
  from assms(3) g have "agent_loop env sid MAX_ITERATIONS Map.empty ?w2 = (r, w')"
    by (simp add: process_message_unfold)
  then have "extends ?w2 w'" using agent_loop_extends by blast
  moreover have "sessions ?w2 sid = Some (h @ [User user_message])"
    using assms(2) by (simp add: append_turn_def history_of_def)
  ultimately show ?thesis by (fastforce simp: extends_def)
qed

lemmas sample_defs = sample_env_def start_def one_session_def silent_engine_def failing_engine_def

section \<open>The session store\<close>

lemma inj_sample_uuid4: "inj (env_uuid4 (sample_env eng))"
  by (simp add: inj_def sample_env_def)

text \<open>
  C1 (as amended): \<open>get_or_create_session\<close> with no session id or an empty one takes
  the next identifier of \<open>uuid4\<close> as the session id and stores under it a transcript of
  exactly one turn, the system turn with the fixed instructions; with a session id that
  is not empty and not in the store, it keeps the caller's id and stores the same
  one-turn transcript under it. Two calls without a session id give two distinct
  identifiers, as long as \<open>uuid4\<close> does not repeat itself.
\<close>

theorem get_or_create_session_new:
  "(session_id = None \<or> session_id = Some [] \<longrightarrow>
      get_or_create_session env session_id w =
        (env_uuid4 env (uuid_calls w),
         w\<lparr>uuid_calls := uuid_calls w + 1,
           sessions := (sessions w)(env_uuid4 env (uuid_calls w) \<mapsto> [System SYSTEM_PROMPT])\<rparr>))
   \<and> (s \<noteq> [] \<and> s \<notin> dom (sessions w) \<longrightarrow>
      get_or_create_session env (Some s) w =
        (s, w\<lparr>sessions := (sessions w)(s \<mapsto> [System SYSTEM_PROMPT])\<rparr>))
   \<and> (inj (env_uuid4 env) \<and> uuid_calls w < uuid_calls w' \<longrightarrow>
      fst (get_or_create_session env None w) \<noteq> fst (get_or_create_session env None w'))"
  by (auto simp: get_or_create_session_def uuid4_str_def dest: injD)

theorem get_or_create_session_new_witness:
  "get_or_create_session (sample_env silent_engine) None start =
     (''session-x'', start\<lparr>uuid_calls := 1, sessions := [''session-x'' \<mapsto> [System SYSTEM_PROMPT]]\<rparr>)
   \<and> ''my-session'' \<noteq> [] \<and> ''my-session'' \<notin> dom (sessions start)
   \<and> get_or_create_session (sample_env silent_engine) (Some ''my-session'') start =
       (''my-session'', start\<lparr>sessions := [''my-session'' \<mapsto> [System SYSTEM_PROMPT]]\<rparr>)
   \<and> inj (env_uuid4 (sample_env silent_engine))
   \<and> uuid_calls start < uuid_calls (snd (get_or_create_session (sample_env silent_engine) None start))
   \<and> fst (get_or_create_session (sample_env silent_engine) None start) \<noteq>
       fst (get_or_create_session (sample_env silent_engine) None
             (snd (get_or_create_session (sample_env silent_engine) None start)))"
proof -
  let ?env = "sample_env silent_engine"
  have first: "get_or_create_session ?env None start =
     (''session-x'', start\<lparr>uuid_calls := 1, sessions := [''session-x'' \<mapsto> [System SYSTEM_PROMPT]]\<rparr>)"
    using get_or_create_session_new [of None ?env start]
    by (simp add: sample_defs)
  have second: "''my-session'' \<noteq> [] \<and> ''my-session'' \<notin> dom (sessions start)"
    by (simp add: start_def)
  then have adopt: "get_or_create_session ?env (Some ''my-session'') start =
       (''my-session'', start\<lparr>sessions := [''my-session'' \<mapsto> [System SYSTEM_PROMPT]]\<rparr>)"
    using get_or_create_session_new [of _ ?env start "''my-session''"]
    by (simp add: start_def)
  have later: "uuid_calls start < uuid_calls (snd (get_or_create_session ?env None start))"
    by (simp add: first) (simp add: start_def)
  with inj_sample_uuid4 [of silent_engine]
  have "fst (get_or_create_session ?env None start) \<noteq>
       fst (get_or_create_session ?env None (snd (get_or_create_session ?env None start)))"
    using get_or_create_session_new
      [of _ ?env start _ "snd (get_or_create_session ?env None start)"]
    by blast
  with first second adopt later inj_sample_uuid4 [of silent_engine] show ?thesis by blast
qed

text \<open>
  The claim as first stated fails for an unknown id that is not empty: the session is
  created under the caller's id, and no identifier is minted.
\<close>

theorem get_or_create_session_new_counterexample:
  "''my-session'' \<notin> dom (sessions start)
   \<and> get_or_create_session (sample_env silent_engine) (Some ''my-session'') start =
       (''my-session'', start\<lparr>sessions := [''my-session'' \<mapsto> [System SYSTEM_PROMPT]]\<rparr>)"
  by (simp add: get_or_create_session_def sample_defs)

section \<open>Transcripts only grow\<close>

text \<open>
  C9: a call of \<open>process_message\<close>, whatever it returns or raises, leaves every
  transcript that was in the store with its turns in place, unchanged and in order, and
  appends at most (a minted identifier is taken to be new to the store). Two calls in a
  row with the same known session id leave the transcript extended by the first user
  turn and what followed it, then by the second user turn and what followed it.
\<close>

theorem transcript_append_only:
  "(process_message env session_id user_message w = (r, w')
      \<and> (session_id = None \<or> session_id = Some [] \<longrightarrow>
           env_uuid4 env (uuid_calls w) \<notin> dom (sessions w))
      \<longrightarrow> (\<forall>k h. sessions w k = Some h \<longrightarrow> (\<exists>new. sessions w' k = Some (h @ new))))
   \<and> (sid \<noteq> [] \<and> sessions w sid = Some h
      \<and> process_message env (Some sid) m1 w = (r1, w1)
      \<and> process_message env (Some sid) m2 w1 = (r2, w2)
      \<longrightarrow> (\<exists>new1 new2. sessions w1 sid = Some (h @ User m1 # new1)
             \<and> sessions w2 sid = Some (h @ User m1 # new1 @ User m2 # new2)))"
proof (intro conjI impI)
  assume "process_message env session_id user_message w = (r, w')
      \<and> (session_id = None \<or> session_id = Some [] \<longrightarrow>
           env_uuid4 env (uuid_calls w) \<notin> dom (sessions w))"
  then have "extends w w'" using process_message_extends by blast
  then show "\<forall>k h. sessions w k = Some h \<longrightarrow> (\<exists>new. sessions w' k = Some (h @ new))"
    by (simp add: extends_def)
next
  assume a: "sid \<noteq> [] \<and> sessions w sid = Some h
      \<and> process_message env (Some sid) m1 w = (r1, w1)
      \<and> process_message env (Some sid) m2 w1 = (r2, w2)"
  then obtain new1 where n1: "sessions w1 sid = Some (h @ User m1 # new1)"
    using process_message_known by blast
  with a obtain new2 where "sessions w2 sid = Some ((h @ User m1 # new1) @ User m2 # new2)"
    using process_message_known by blast
  with n1 show "\<exists>new1 new2. sessions w1 sid = Some (h @ User m1 # new1)
             \<and> sessions w2 sid = Some (h @ User m1 # new1 @ User m2 # new2)"
    by auto
qed

theorem transcript_append_only_witness:
  "''abc'' \<noteq> [] \<and> sessions one_session ''abc'' = Some [System SYSTEM_PROMPT]
   \<and> env_uuid4 (sample_env scripted_engine) (uuid_calls one_session) \<notin> dom (sessions one_session)
   \<and> (\<exists>new. sessions (snd (process_message (sample_env scripted_engine) None ''hello'' one_session))
               ''abc'' = Some ([System SYSTEM_PROMPT] @ new))
   \<and> (\<exists>new1 new2.
        sessions (snd (process_message (sample_env scripted_engine) (Some ''abc'') ''hello'' one_session))
          ''abc'' = Some ([System SYSTEM_PROMPT] @ User ''hello'' # new1)
        \<and> sessions
            (snd (process_message (sample_env scripted_engine) (Some ''abc'') ''thanks''
               (snd (process_message (sample_env scripted_engine) (Some ''abc'') ''hello'' one_session))))
            ''abc'' = Some ([System SYSTEM_PROMPT] @ User ''hello'' # new1 @ User ''thanks'' # new2))"
proof -
  let ?env = "sample_env scripted_engine"
  let ?p1 = "process_message ?env (Some ''abc'') ''hello'' one_session"
  let ?p2 = "process_message ?env (Some ''abc'') ''thanks'' (snd ?p1)"
  let ?q = "process_message ?env None ''hello'' one_session"
  have s: "''abc'' \<noteq> [] \<and> sessions one_session ''abc'' = Some [System SYSTEM_PROMPT]"
    by (simp add: one_session_def)
  have f: "env_uuid4 ?env (uuid_calls one_session) \<notin> dom (sessions one_session)"
    by (simp add: one_session_def start_def sample_env_def)
  have q: "?q = (fst ?q, snd ?q)" and p1: "?p1 = (fst ?p1, snd ?p1)"
    and p2: "?p2 = (fst ?p2, snd ?p2)"
    by simp_all
  from transcript_append_only [of ?env None "''hello''" one_session "fst ?q" "snd ?q"] q s f
  have a: "\<exists>new. sessions (snd ?q) ''abc'' = Some ([System SYSTEM_PROMPT] @ new)"
    by blast
  from transcript_append_only
    [of ?env None "''hello''" one_session "fst ?q" "snd ?q" "''abc''" "[System SYSTEM_PROMPT]"
       "''hello''" "fst ?p1" "snd ?p1" "''thanks''" "fst ?p2" "snd ?p2"] s p1 p2
  have b: "\<exists>new1 new2.
        sessions (snd ?p1) ''abc'' = Some ([System SYSTEM_PROMPT] @ User ''hello'' # new1)
        \<and> sessions (snd ?p2) ''abc'' =
            Some ([System SYSTEM_PROMPT] @ User ''hello'' # new1 @ User ''thanks'' # new2)"
    by blast
  from s f a b show ?thesis by blast
qed

section \<open>A failing engine\<close>




section \<open>Account creation in the dialogue\<close>

lemma create_account_dict:
  "\<exists>account_number routing_number.
     create_account env (JObj members) w =
       (Inr (account_json env members account_number routing_number),
        w\<lparr>random_calls := random_calls w + 19\<rparr>)
     \<and> length account_number = 10 \<and> list_all is_digit account_number
     \<and> length routing_number = 9 \<and> list_all is_digit routing_number"
proof -
  obtain an w1 where an: "random_choices env DIGITS 10 w = (an, w1)"
    by (cases "random_choices env DIGITS 10 w")
  obtain rn w2 where rn: "random_choices env DIGITS 9 w1 = (rn, w2)"
    by (cases "random_choices env DIGITS 9 w1")
  from random_choices_DIGITS [OF an] random_choices_DIGITS [OF rn]
  have digits: "length an = 10" "list_all is_digit an" "length rn = 9" "list_all is_digit rn"
    and w2: "w2 = w\<lparr>random_calls := random_calls w + 19\<rparr>"
    by simp_all
  have "create_account env (JObj members) w = (Inr (account_json env members an rn), w2)"
    using an rn by (simp add: create_account_def dict_get_def account_json_def split: option.splits)
  with digits w2 show ?thesis by blast
qed

lemma capture_metadata_account:
  "capture_metadata ''create_account'' (Json (account_json env members an rn)) md =
     Inr (account_metadata md an rn)"
  by (simp add: capture_metadata_def json_loads_def dict_get_def subscript_def truthy_def
      account_json_def account_metadata_def)

lemma create_account_returns:
  "create_account env data w = (Inr r, w1) \<Longrightarrow>
     \<exists>members an rn. data = JObj members \<and> r = account_json env members an rn"
proof (cases "\<exists>members. data = JObj members")
  case True
  assume run: "create_account env data w = (Inr r, w1)"
  from True obtain members where m: "data = JObj members" by blast
  from create_account_dict [of env members w] run m show ?thesis by auto
next
  case False
  assume run: "create_account env data w = (Inr r, w1)"
  from False have "dict_get data ''firstName'' (JStr []) = Inl AttributeError"
    by (cases data) (auto simp: dict_get_def)
  with run show ?thesis by (simp add: create_account_def Let_def split: prod.splits)
qed

lemma capture_metadata_returns:
  assumes "run_call env tc w = (Inr tool_result, w1)"
  shows "\<exists>md1. capture_metadata (function_name tc) tool_result md = Inr md1"
proof (cases "function_name tc = ''create_account''")
  case False
  then show ?thesis by (simp add: capture_metadata_def)
next
  case True
  from assms obtain fn_args where args: "json_loads (function_arguments tc) = Inr fn_args"
    by (cases "json_loads (function_arguments tc)") (simp_all add: run_call_def)
  with assms True obtain r where "create_account env fn_args w = (Inr r, w1)" "tool_result = Json r"
    by (auto simp: run_call_def execute_tool_def json_dumps_def split: sum.splits prod.splits)
  then obtain members an rn where "tool_result = Json (account_json env members an rn)"
    using create_account_returns by blast
  with True show ?thesis by (simp add: capture_metadata_account)
qed

text \<open>
  C10: for every dictionary of arguments, with or without the ten required keys,
  \<open>create_account\<close> of agent.py validates nothing and returns \<open>success\<close> true, an
  account number of ten digits, a routing number of nine digits, the account type
  Checking and the customerName made of the values under \<open>firstName\<close> and \<open>lastName\<close>
  (the empty string for a missing key) with a space between them; and the loop, on a
  \<open>create_account\<close> invocation with such arguments, captures \<open>accountCreated\<close> and the
  numbers into the metadata before it goes on.
\<close>

theorem create_account_unvalidated:
  "\<exists>account_number routing_number.
     create_account env (JObj members) w =
       (Inr (account_json env members account_number routing_number),
        w\<lparr>random_calls := random_calls w + 19\<rparr>)
     \<and> length account_number = 10 \<and> list_all is_digit account_number
     \<and> length routing_number = 9 \<and> list_all is_digit routing_number
     \<and> (function_name tc = ''create_account'' \<and> function_arguments tc = Json (JObj members) \<longrightarrow>
          execute_tool_calls env sid (tc # rest) md w =
            execute_tool_calls env sid rest (account_metadata md account_number routing_number)
              (append_turn sid
                 (Tool (call_id tc) (Json (account_json env members account_number routing_number)))
                 (w\<lparr>random_calls := random_calls w + 19\<rparr>)))"
proof -
  from create_account_dict [of env members w] obtain an rn where
    c: "create_account env (JObj members) w =
       (Inr (account_json env members an rn), w\<lparr>random_calls := random_calls w + 19\<rparr>)"
    and d: "length an = 10" "list_all is_digit an" "length rn = 9" "list_all is_digit rn"
    by blast
  have "execute_tool_calls env sid (tc # rest) md w =
      execute_tool_calls env sid rest (account_metadata md an rn)
        (append_turn sid (Tool (call_id tc) (Json (account_json env members an rn)))
           (w\<lparr>random_calls := random_calls w + 19\<rparr>))"
    if "function_name tc = ''create_account'' \<and> function_arguments tc = Json (JObj members)"
    using that c
    by (simp add: json_loads_def json_dumps_def execute_tool_def capture_metadata_account)
  with c d show ?thesis by blast
qed

theorem create_account_unvalidated_witness:
  "create_account (sample_env silent_engine) (JObj []) start =
     (Inr (JObj [(''success'', JBool True), (''accountNumber'', JStr ''0123456789''),
                 (''routingNumber'', JStr ''012345678''), (''accountType'', JStr ''Checking''),
                 (''customerName'', JStr '' ''),
                 (''message'', JStr ''Account created successfully!'')]),
      start\<lparr>random_calls := 19\<rparr>)
   \<and> (\<exists>w'. execute_tool_calls (sample_env silent_engine) ''abc''
              [\<lparr>call_id = ''call_9'', function_name = ''create_account'',
                function_arguments = Json (JObj [])\<rparr>] Map.empty one_session =
            (Inr [''accountCreated'' \<mapsto> JBool True, ''accountNumber'' \<mapsto> JStr ''0123456789'',
                  ''routingNumber'' \<mapsto> JStr ''012345678'', ''accountType'' \<mapsto> JStr ''Checking''], w'))"
proof -
  let ?env = "sample_env silent_engine"
  let ?tc = "\<lparr>call_id = ''call_9'', function_name = ''create_account'',
                function_arguments = Json (JObj [])\<rparr>"
  have direct: "create_account ?env (JObj []) start =
     (Inr (account_json ?env [] ''0123456789'' ''012345678''), start\<lparr>random_calls := 19\<rparr>)"
    by (simp add: create_account_def random_choices_def dict_get_def account_json_def DIGITS_def
        sample_env_def start_def upt_rec)
  have direct1: "create_account ?env (JObj []) one_session =
     (Inr (account_json ?env [] ''0123456789'' ''012345678''), one_session\<lparr>random_calls := 19\<rparr>)"
    by (simp add: create_account_def random_choices_def dict_get_def account_json_def DIGITS_def
        sample_env_def start_def one_session_def upt_rec)
  from create_account_unvalidated [of ?env "[]" one_session ?tc "''abc''" "[]" Map.empty]
  obtain an rn w' where
    c: "create_account ?env (JObj []) one_session = (Inr (account_json ?env [] an rn), w')"
    and step: "function_name ?tc = ''create_account'' \<and> function_arguments ?tc = Json (JObj []) \<longrightarrow>
      execute_tool_calls ?env ''abc'' [?tc] Map.empty one_session =
        execute_tool_calls ?env ''abc'' [] (account_metadata Map.empty an rn)
          (append_turn ''abc'' (Tool (call_id ?tc) (Json (account_json ?env [] an rn)))
             (one_session\<lparr>random_calls := random_calls one_session + 19\<rparr>))"
    by blast
  from c direct1 have numbers: "an = ''0123456789''" "rn = ''012345678''"
    by (simp_all add: account_json_def)
  have "function_name ?tc = ''create_account'' \<and> function_arguments ?tc = Json (JObj [])"
    by simp
  with step have "\<exists>w'. execute_tool_calls ?env ''abc'' [?tc] Map.empty one_session =
      execute_tool_calls ?env ''abc'' [] (account_metadata Map.empty an rn) w'"
    by blast
  then have "\<exists>w'. execute_tool_calls ?env ''abc'' [?tc] Map.empty one_session =
      (Inr (account_metadata Map.empty ''0123456789'' ''012345678''), w')"
    by (simp only: execute_tool_calls.simps(1) numbers)
  then show ?thesis
    using direct by (simp add: account_json_def account_metadata_def format_value_def)
qed

section \<open>Tool invocations in the order received\<close>

lemma run_call_random:
  "random_calls w = random_calls v \<Longrightarrow>
     fst (run_call env tc w) = fst (run_call env tc v)
     \<and> random_calls (snd (run_call env tc w)) = random_calls (snd (run_call env tc v))"
  by (auto simp: run_call_def execute_tool_def create_account_def random_choices_def Let_def
      split: sum.splits)

lemma expected_tool_turns_random:
  "random_calls w = random_calls v \<Longrightarrow> expected_tool_turns env calls w = expected_tool_turns env calls v"
proof (induction calls arbitrary: w v)
  case Nil
  then show ?case by simp
next
  case (Cons tc rest)
  obtain r w1 where w: "run_call env tc w = (r, w1)" by (cases "run_call env tc w")
  obtain r' v1 where v: "run_call env tc v = (r', v1)" by (cases "run_call env tc v")
  from run_call_random [OF Cons.prems, of env tc] w v
  have same: "r = r'" "random_calls w1 = random_calls v1" by simp_all
  then have "expected_tool_turns env rest w1 = expected_tool_turns env rest v1"
    using Cons.IH by blast
  with w v same show ?case by (simp split: sum.splits)
qed

lemma execute_tool_calls_well_formed:
  "list_all call_well_formed calls \<Longrightarrow>
     \<exists>md' w'. execute_tool_calls env sid calls md w = (Inr md', w')
       \<and> history_of w' sid = history_of w sid @ expected_tool_turns env calls w
       \<and> map tool_call_id (expected_tool_turns env calls w) = map (\<lambda>tc. Some (call_id tc)) calls"
proof (induction calls arbitrary: md w)
  case Nil
  then show ?case by simp
next
  case (Cons tc rest)
  then have wf: "call_well_formed tc" "list_all call_well_formed rest" by simp_all
  from run_call_well_formed [OF wf(1)] obtain r w1 where run: "run_call env tc w = (Inr r, w1)"
    by blast
  then have frame: "sessions w1 = sessions w" using run_call_frame by blast
  from capture_metadata_returns [OF run] obtain md1 where
    cap: "capture_metadata (function_name tc) r md = Inr md1" by blast
  let ?w2 = "append_turn sid (Tool (call_id tc) r) w1"
  from Cons.IH [OF wf(2), of md1 ?w2] obtain md' w' where
    rest: "execute_tool_calls env sid rest md1 ?w2 = (Inr md', w')"
      "history_of w' sid = history_of ?w2 sid @ expected_tool_turns env rest ?w2"
      "map tool_call_id (expected_tool_turns env rest ?w2) = map (\<lambda>tc. Some (call_id tc)) rest"
    by blast
  have same: "expected_tool_turns env rest ?w2 = expected_tool_turns env rest w1"
    by (rule expected_tool_turns_random) (simp add: append_turn_counts)
  have h2: "history_of ?w2 sid = history_of w sid @ [Tool (call_id tc) r]"
  proof -
    have "history_of w1 sid = history_of w sid" using frame by (simp add: history_of_def)
    then show ?thesis by (simp add: history_of_append_turn)
  qed
  have "execute_tool_calls env sid (tc # rest) md w = (Inr md', w')"
    using run cap rest(1) by (simp only: execute_tool_calls_step prod.case sum.case)
  moreover have "history_of w' sid = history_of w sid @ expected_tool_turns env (tc # rest) w"
    using rest(2) same h2 run by simp
  moreover have "map tool_call_id (expected_tool_turns env (tc # rest) w) =
      map (\<lambda>tc. Some (call_id tc)) (tc # rest)"
    using rest(3) same run by (simp add: tool_call_id_def)
  ultimately show ?case by blast
qed

lemma tool_invocations_body:
  assumes "env_engine env (engine_calls w) (history_of w sid) = Inr m" "tool_calls m \<noteq> []"
    and "list_all call_well_formed (tool_calls m)"
  shows "\<exists>md' w'. loop_body env sid md w = (Continue md', w')
      \<and> history_of w' sid =
          history_of w sid @ AssistantToolCalls (content m) (tool_calls m) #
            expected_tool_turns env (tool_calls m) w
      \<and> map tool_call_id (expected_tool_turns env (tool_calls m) w) =
          map (\<lambda>tc. Some (call_id tc)) (tool_calls m)
      \<and> engine_calls w' = engine_calls w + 1"
proof -
  let ?w2 = "append_turn sid (AssistantToolCalls (content m) (tool_calls m))
               (w\<lparr>engine_calls := engine_calls w + 1\<rparr>)"
  from assms(3) execute_tool_calls_well_formed [of "tool_calls m" env sid md ?w2]
  obtain md' w' where run: "execute_tool_calls env sid (tool_calls m) md ?w2 = (Inr md', w')"
    "history_of w' sid = history_of ?w2 sid @ expected_tool_turns env (tool_calls m) ?w2"
    "map tool_call_id (expected_tool_turns env (tool_calls m) ?w2) =
       map (\<lambda>tc. Some (call_id tc)) (tool_calls m)"
    by blast
  have same: "expected_tool_turns env (tool_calls m) ?w2 = expected_tool_turns env (tool_calls m) w"
    by (rule expected_tool_turns_random) (simp add: append_turn_counts)
  have h2: "history_of ?w2 sid =
      history_of w sid @ [AssistantToolCalls (content m) (tool_calls m)]"
    by (simp add: history_of_append_turn) (simp add: history_of_def)
  have body: "loop_body env sid md w = (Continue md', w')"
    using assms(1,2) run(1) by (simp add: loop_body_def Let_def)
  have calls: "engine_calls w' = engine_calls w + 1"
    using execute_tool_calls_extends [OF run(1)] by (simp add: append_turn_counts)
  from body run(2,3) same h2 calls show ?thesis by simp
qed

lemma execute_tool_calls_ill_formed:
  "\<not> list_all call_well_formed calls \<Longrightarrow>
     \<exists>e w'. execute_tool_calls env sid calls md w = (Inl e, w')"
proof (induction calls arbitrary: md w)
  case Nil
  then show ?case by simp
next
  case (Cons tc rest)
  show ?case
  proof (cases "call_well_formed tc")
    case False
    from run_call_raises [OF False] obtain e w1 where "run_call env tc w = (Inl e, w1)" by blast
    then have "execute_tool_calls env sid (tc # rest) md w = (Inl e, w1)"
      by (simp only: execute_tool_calls_step prod.case sum.case)
    then show ?thesis by blast
  next
    case True
    with Cons.prems have rest: "\<not> list_all call_well_formed rest" by simp
    from run_call_well_formed [OF True] obtain r w1 where run: "run_call env tc w = (Inr r, w1)"
      by blast
    from capture_metadata_returns [OF run] obtain md1 where
      cap: "capture_metadata (function_name tc) r md = Inr md1" by blast
    from Cons.IH [OF rest] obtain e w' where
      "execute_tool_calls env sid rest md1 (append_turn sid (Tool (call_id tc) r) w1) = (Inl e, w')"
      by blast
    with run cap have "execute_tool_calls env sid (tc # rest) md w = (Inl e, w')"
      by (simp only: execute_tool_calls_step prod.case sum.case)
    then show ?thesis by blast
  qed
qed

lemma loop_body_ill_formed:
  assumes "env_engine env (engine_calls w) (history_of w sid) = Inr m"
    and "\<not> list_all call_well_formed (tool_calls m)"
  shows "\<exists>e w'. loop_body env sid md w = (Raise e, w')"
proof -
  from assms(2) have ne: "tool_calls m \<noteq> []" by auto
  let ?w2 = "append_turn sid (AssistantToolCalls (content m) (tool_calls m))
               (w\<lparr>engine_calls := engine_calls w + 1\<rparr>)"
  from execute_tool_calls_ill_formed [OF assms(2)] obtain e w' where
    "execute_tool_calls env sid (tool_calls m) md ?w2 = (Inl e, w')" by blast
  with assms(1) ne show ?thesis by (simp add: loop_body_def Let_def)
qed

lemma sample_turns:
  "expected_tool_turns (sample_env scripted_engine) sample_calls one_session =
     [Tool ''call_1'' (Json (JObj [(''valid'', JBool True), (''message'', JStr ''Valid''),
                                   (''cleaned_value'', JStr ''62704'')])),
      Tool ''call_2'' (Json show_agreement),
      Tool ''call_3'' (Json (JObj
        [(''success'', JBool True), (''accountNumber'', JStr ''0123456789''),
         (''routingNumber'', JStr ''012345678''), (''accountType'', JStr ''Checking''),
         (''customerName'', JStr ''Ada Lovelace''),
         (''message'', JStr ''Account created successfully!'')]))]"
  by code_simp

text \<open>
  C7 (as amended): when the response of the engine carries \<open>n\<close> tool invocations, all
  well formed, the pass through the loop body appends one assistant turn recording them
  and then the \<open>n\<close> tool turns of running them in the order received, each under the
  identifier of its invocation, and makes no engine call but the one at its start: the
  next engine call finds all \<open>n\<close> results. When an invocation is not well formed, the
  pass raises.
\<close>

theorem tool_invocations_in_order:
  "(env_engine env (engine_calls w) (history_of w sid) = Inr m \<and> tool_calls m \<noteq> []
      \<and> list_all call_well_formed (tool_calls m) \<longrightarrow>
    (\<exists>md' w' turns. loop_body env sid md w = (Continue md', w')
       \<and> history_of w' sid =
           history_of w sid @ AssistantToolCalls (content m) (tool_calls m) # turns
       \<and> turns = expected_tool_turns env (tool_calls m) w
       \<and> map tool_call_id turns = map (\<lambda>tc. Some (call_id tc)) (tool_calls m)
       \<and> length turns = length (tool_calls m)
       \<and> engine_calls w' = engine_calls w + 1))
   \<and> (env_engine env (engine_calls w) (history_of w sid) = Inr m
      \<and> \<not> list_all call_well_formed (tool_calls m) \<longrightarrow>
    (\<exists>e w'. loop_body env sid md w = (Raise e, w')))"
proof (rule conjI; rule impI)
  assume a: "env_engine env (engine_calls w) (history_of w sid) = Inr m \<and> tool_calls m \<noteq> []
     \<and> list_all call_well_formed (tool_calls m)"
  then obtain md' w' where body: "loop_body env sid md w = (Continue md', w')"
      "history_of w' sid =
          history_of w sid @ AssistantToolCalls (content m) (tool_calls m) #
            expected_tool_turns env (tool_calls m) w"
      "map tool_call_id (expected_tool_turns env (tool_calls m) w) =
          map (\<lambda>tc. Some (call_id tc)) (tool_calls m)"
      "engine_calls w' = engine_calls w + 1"
    using tool_invocations_body [of env w sid m md] by blast
  from body(3) have "length (expected_tool_turns env (tool_calls m) w) = length (tool_calls m)"
    by (metis length_map)
  with body show "\<exists>md' w' turns. loop_body env sid md w = (Continue md', w')
      \<and> history_of w' sid =
          history_of w sid @ AssistantToolCalls (content m) (tool_calls m) # turns
      \<and> turns = expected_tool_turns env (tool_calls m) w
      \<and> map tool_call_id turns = map (\<lambda>tc. Some (call_id tc)) (tool_calls m)
      \<and> length turns = length (tool_calls m)
      \<and> engine_calls w' = engine_calls w + 1"
    by simp
next
  assume "env_engine env (engine_calls w) (history_of w sid) = Inr m
      \<and> \<not> list_all call_well_formed (tool_calls m)"
  then show "\<exists>e w'. loop_body env sid md w = (Raise e, w')"
    using loop_body_ill_formed by blast
qed

theorem tool_invocations_in_order_witness:
  "env_engine (sample_env scripted_engine) (engine_calls one_session) (history_of one_session ''abc'') =
     Inr \<lparr>content = None, tool_calls = sample_calls\<rparr>
   \<and> sample_calls \<noteq> [] \<and> list_all call_well_formed sample_calls
   \<and> (\<exists>md' w'. loop_body (sample_env scripted_engine) ''abc'' Map.empty one_session = (Continue md', w')
        \<and> engine_calls w' = 1
        \<and> history_of w' ''abc'' =
            [System SYSTEM_PROMPT,
             AssistantToolCalls None sample_calls,
             Tool ''call_1'' (Json (JObj [(''valid'', JBool True), (''message'', JStr ''Valid''),
                                         (''cleaned_value'', JStr ''62704'')])),
             Tool ''call_2'' (Json show_agreement),
             Tool ''call_3'' (Json (JObj
               [(''success'', JBool True), (''accountNumber'', JStr ''0123456789''),
                (''routingNumber'', JStr ''012345678''), (''accountType'', JStr ''Checking''),
                (''customerName'', JStr ''Ada Lovelace''),
                (''message'', JStr ''Account created successfully!'')]))])
   \<and> env_engine (sample_env incomplete_engine) (engine_calls one_session)
        (history_of one_session ''abc'') = Inr \<lparr>content = None, tool_calls = incomplete_calls\<rparr>
   \<and> \<not> list_all call_well_formed incomplete_calls
   \<and> (\<exists>e w'. loop_body (sample_env incomplete_engine) ''abc'' Map.empty one_session = (Raise e, w'))"
proof -
  let ?env = "sample_env scripted_engine"
  let ?m = "\<lparr>content = None, tool_calls = sample_calls\<rparr>"
  have e: "env_engine ?env (engine_calls one_session) (history_of one_session ''abc'') = Inr ?m"
    by (simp add: sample_env_def scripted_engine_def one_session_def start_def)
  have wf: "sample_calls \<noteq> [] \<and> list_all call_well_formed sample_calls"
    by (simp add: sample_calls_def call_well_formed_def)
  have h: "history_of one_session ''abc'' = [System SYSTEM_PROMPT]"
    by (simp add: history_of_def one_session_def)
  have c: "engine_calls one_session = 0" by (simp add: one_session_def start_def)
  from tool_invocations_in_order [of ?env one_session "''abc''" ?m Map.empty] e wf
  obtain md' w' where "loop_body ?env ''abc'' Map.empty one_session = (Continue md', w')"
    "history_of w' ''abc'' = history_of one_session ''abc'' @
       AssistantToolCalls None sample_calls # expected_tool_turns ?env sample_calls one_session"
    "engine_calls w' = engine_calls one_session + 1"
    by auto
  then have good: "\<exists>md' w'. loop_body ?env ''abc'' Map.empty one_session = (Continue md', w')
        \<and> engine_calls w' = 1
        \<and> history_of w' ''abc'' =
            [System SYSTEM_PROMPT,
             AssistantToolCalls None sample_calls,
             Tool ''call_1'' (Json (JObj [(''valid'', JBool True), (''message'', JStr ''Valid''),
                                         (''cleaned_value'', JStr ''62704'')])),
             Tool ''call_2'' (Json show_agreement),
             Tool ''call_3'' (Json (JObj
               [(''success'', JBool True), (''accountNumber'', JStr ''0123456789''),
                (''routingNumber'', JStr ''012345678''), (''accountType'', JStr ''Checking''),
                (''customerName'', JStr ''Ada Lovelace''),
                (''message'', JStr ''Account created successfully!'')]))]"
    by (auto simp: sample_turns h c)
  let ?env2 = "sample_env incomplete_engine"
  let ?m2 = "\<lparr>content = None, tool_calls = incomplete_calls\<rparr>"
  have e2: "env_engine ?env2 (engine_calls one_session) (history_of one_session ''abc'') = Inr ?m2"
    by (simp add: sample_env_def incomplete_engine_def)
  have bad: "\<not> list_all call_well_formed incomplete_calls"
    by (simp add: incomplete_calls_def call_well_formed_def)
  from tool_invocations_in_order [of ?env2 one_session "''abc''" ?m2 Map.empty] e2 bad
  have raised: "\<exists>e w'. loop_body ?env2 ''abc'' Map.empty one_session = (Raise e, w')"
    by simp
  from e wf good e2 bad raised show ?thesis by blast
qed

text \<open>
  The claim as first stated fails on a response with two invocations of which the second
  lacks the argument \<open>value\<close>: the pass raises \<open>KeyError\<close> after one tool turn, and the
  next engine call, in the next call on the session, finds two invocations and one result.
\<close>

theorem tool_invocations_in_order_counterexample:
  "env_engine (sample_env incomplete_engine) (engine_calls one_session) (history_of one_session ''abc'') =
     Inr \<lparr>content = None, tool_calls = incomplete_calls\<rparr>
   \<and> length incomplete_calls = 2
   \<and> fst (loop_body (sample_env incomplete_engine) ''abc'' Map.empty one_session) = Raise KeyError
   \<and> history_of (snd (loop_body (sample_env incomplete_engine) ''abc'' Map.empty one_session)) ''abc'' =
       [System SYSTEM_PROMPT, AssistantToolCalls None incomplete_calls,
        Tool ''call_1'' (Json show_agreement)]
   \<and> fst (process_message (sample_env incomplete_engine) (Some ''abc'') ''hello'' one_session) =
       Inl KeyError
   \<and> history_of (snd (process_message (sample_env incomplete_engine) (Some ''abc'') ''again''
        (snd (process_message (sample_env incomplete_engine) (Some ''abc'') ''hello'' one_session))))
        ''abc'' =
       [System SYSTEM_PROMPT, User ''hello'', AssistantToolCalls None incomplete_calls,
        Tool ''call_1'' (Json show_agreement), User ''again'',
        AssistantToolCalls None incomplete_calls, Tool ''call_1'' (Json show_agreement)]
   \<and> engine_calls (snd (process_message (sample_env incomplete_engine) (Some ''abc'') ''again''
        (snd (process_message (sample_env incomplete_engine) (Some ''abc'') ''hello'' one_session)))) = 2"
  by (simp add: process_message_def get_or_create_session_def MAX_ITERATIONS_def eval_nat_numeral
      loop_body_def append_turn_def history_of_def sample_env_def start_def one_session_def
      incomplete_engine_def incomplete_calls_def json_loads_def json_dumps_def execute_tool_def
      capture_metadata_def subscript_def)

section \<open>The bound of ten passes\<close>

lemma after_iterations_fallback:
  "after_iterations env sid n md w = Some (md', w') \<Longrightarrow>
     agent_loop env sid n md w =
       (Inr \<lparr>sessionId = sid, reply = FALLBACK, metadata = md'\<rparr>,
        append_turn sid (Assistant FALLBACK) w')
     \<and> engine_calls w' = engine_calls w + n"
proof (induction n arbitrary: md w)
  case 0
  then show ?case by simp
next
  case (Suc n)
  obtain s w1 where body: "loop_body env sid md w = (s, w1)" by (cases "loop_body env sid md w")
  with Suc.prems obtain md1 where s: "s = Continue md1"
    and rest: "after_iterations env sid n md1 w1 = Some (md', w')"
    by (cases s) simp_all
  from loop_body_extends [OF body] have "engine_calls w1 = engine_calls w + 1" by simp
  with Suc.IH [OF rest] body s show ?case by simp
qed

lemma after_iterations_tools:
  "(\<And>k h. engine_calls w \<le> k \<Longrightarrow> k < engine_calls w + n \<Longrightarrow>
       \<exists>m. env_engine env k h = Inr m \<and> tool_calls m \<noteq> [] \<and> list_all call_well_formed (tool_calls m))
   \<Longrightarrow> \<exists>md' w'. after_iterations env sid n md w = Some (md', w')"
proof (induction n arbitrary: md w)
  case 0
  then show ?case by simp
next
  case (Suc n)
  from Suc.prems [of "engine_calls w" "history_of w sid"] obtain m where
    m: "env_engine env (engine_calls w) (history_of w sid) = Inr m" "tool_calls m \<noteq> []"
       "list_all call_well_formed (tool_calls m)"
    by auto
  with tool_invocations_body [of env w sid m md] obtain md1 w1 where
    body: "loop_body env sid md w = (Continue md1, w1)" "engine_calls w1 = engine_calls w + 1"
    by blast
  have "\<exists>md' w'. after_iterations env sid n md1 w1 = Some (md', w')"
  proof (rule Suc.IH)
    fix k h
    assume "engine_calls w1 \<le> k" "k < engine_calls w1 + n"
    with body(2) have "engine_calls w \<le> k" "k < engine_calls w + Suc n" by simp_all
    then show "\<exists>m. env_engine env k h = Inr m \<and> tool_calls m \<noteq> [] \<and> list_all call_well_formed (tool_calls m)"
      by (rule Suc.prems)
  qed
  with body(1) show ?case by simp
qed

lemma get_or_create_session_engine_calls:
  "get_or_create_session env session_id w = (sid, w1) \<Longrightarrow> engine_calls w1 = engine_calls w"
  by (auto simp: get_or_create_session_def uuid4_str_def split: option.splits if_splits)

text \<open>
  C8 (as amended): \<open>process_message\<close> never makes more than ten engine calls. When
  each of the ten responses carries tool invocations, all well formed, it raises nothing:
  it returns the fixed fallback reply with the metadata captured in the ten passes, and
  its state is the one after the ten passes with the fallback appended as an assistant
  turn, so the fallback draws no number and creates no account.
\<close>

theorem iteration_bound_fallback:
  "engine_calls (snd (process_message env session_id user_message w))
     \<le> engine_calls w + MAX_ITERATIONS
   \<and> (get_or_create_session env session_id w = (sid, w1)
      \<and> (\<forall>k h. engine_calls w \<le> k \<and> k < engine_calls w + MAX_ITERATIONS \<longrightarrow>
            (\<exists>m. env_engine env k h = Inr m \<and> tool_calls m \<noteq> []
                 \<and> list_all call_well_formed (tool_calls m)))
      \<longrightarrow> (\<exists>md' w10.
             after_iterations env sid MAX_ITERATIONS Map.empty
               (append_turn sid (User user_message) w1) = Some (md', w10)
             \<and> process_message env session_id user_message w =
                 (Inr \<lparr>sessionId = sid, reply = FALLBACK, metadata = md'\<rparr>,
                  append_turn sid (Assistant FALLBACK) w10)
             \<and> engine_calls w10 = engine_calls w + MAX_ITERATIONS
             \<and> random_calls (append_turn sid (Assistant FALLBACK) w10) = random_calls w10
             \<and> history_of (append_turn sid (Assistant FALLBACK) w10) sid =
                 history_of w10 sid @ [Assistant FALLBACK]))"
proof (rule conjI)
  obtain sid0 w0 where g: "get_or_create_session env session_id w = (sid0, w0)"
    by (cases "get_or_create_session env session_id w")
  let ?w2 = "append_turn sid0 (User user_message) w0"
  obtain r w' where run: "agent_loop env sid0 MAX_ITERATIONS Map.empty ?w2 = (r, w')"
    by (cases "agent_loop env sid0 MAX_ITERATIONS Map.empty ?w2")
  then have "engine_calls w' \<le> engine_calls ?w2 + MAX_ITERATIONS"
    using agent_loop_extends by blast
  moreover have "engine_calls ?w2 = engine_calls w"
    using get_or_create_session_engine_calls [OF g] by (simp add: append_turn_counts)
  ultimately show "engine_calls (snd (process_message env session_id user_message w))
     \<le> engine_calls w + MAX_ITERATIONS"
    using g run by (simp add: process_message_unfold)
next
  show "get_or_create_session env session_id w = (sid, w1)
      \<and> (\<forall>k h. engine_calls w \<le> k \<and> k < engine_calls w + MAX_ITERATIONS \<longrightarrow>
            (\<exists>m. env_engine env k h = Inr m \<and> tool_calls m \<noteq> []
                 \<and> list_all call_well_formed (tool_calls m)))
      \<longrightarrow> (\<exists>md' w10.
             after_iterations env sid MAX_ITERATIONS Map.empty
               (append_turn sid (User user_message) w1) = Some (md', w10)
             \<and> process_message env session_id user_message w =
                 (Inr \<lparr>sessionId = sid, reply = FALLBACK, metadata = md'\<rparr>,
                  append_turn sid (Assistant FALLBACK) w10)
             \<and> engine_calls w10 = engine_calls w + MAX_ITERATIONS
             \<and> random_calls (append_turn sid (Assistant FALLBACK) w10) = random_calls w10
             \<and> history_of (append_turn sid (Assistant FALLBACK) w10) sid =
                 history_of w10 sid @ [Assistant FALLBACK])"
  proof
    assume a: "get_or_create_session env session_id w = (sid, w1)
      \<and> (\<forall>k h. engine_calls w \<le> k \<and> k < engine_calls w + MAX_ITERATIONS \<longrightarrow>
            (\<exists>m. env_engine env k h = Inr m \<and> tool_calls m \<noteq> []
                 \<and> list_all call_well_formed (tool_calls m)))"
    let ?w2 = "append_turn sid (User user_message) w1"
    from a have g: "get_or_create_session env session_id w = (sid, w1)" by blast
    have c: "engine_calls ?w2 = engine_calls w"
      using get_or_create_session_engine_calls [OF g] by (simp add: append_turn_counts)
    have "\<exists>md' w10. after_iterations env sid MAX_ITERATIONS Map.empty ?w2 = Some (md', w10)"
    proof (rule after_iterations_tools)
      fix k h
      assume "engine_calls ?w2 \<le> k" "k < engine_calls ?w2 + MAX_ITERATIONS"
      with a c show "\<exists>m. env_engine env k h = Inr m \<and> tool_calls m \<noteq> []
          \<and> list_all call_well_formed (tool_calls m)"
        by simp
    qed
    then obtain md' w10 where it:
      "after_iterations env sid MAX_ITERATIONS Map.empty ?w2 = Some (md', w10)"
      by blast
    from after_iterations_fallback [OF it] c a
    have "process_message env session_id user_message w =
        (Inr \<lparr>sessionId = sid, reply = FALLBACK, metadata = md'\<rparr>,
         append_turn sid (Assistant FALLBACK) w10)"
      and "engine_calls w10 = engine_calls w + MAX_ITERATIONS"
      by (simp_all add: process_message_unfold)
    with it show "\<exists>md' w10.
             after_iterations env sid MAX_ITERATIONS Map.empty ?w2 = Some (md', w10)
             \<and> process_message env session_id user_message w =
                 (Inr \<lparr>sessionId = sid, reply = FALLBACK, metadata = md'\<rparr>,
                  append_turn sid (Assistant FALLBACK) w10)
             \<and> engine_calls w10 = engine_calls w + MAX_ITERATIONS
             \<and> random_calls (append_turn sid (Assistant FALLBACK) w10) = random_calls w10
             \<and> history_of (append_turn sid (Assistant FALLBACK) w10) sid =
                 history_of w10 sid @ [Assistant FALLBACK]"
      by (simp add: append_turn_counts history_of_append_turn)
  qed
qed

theorem iteration_bound_fallback_witness:
  "get_or_create_session (sample_env looping_engine) (Some ''abc'') one_session = (''abc'', one_session)
   \<and> (\<exists>md' w'. process_message (sample_env looping_engine) (Some ''abc'') ''hello'' one_session =
          (Inr \<lparr>sessionId = ''abc'', reply = FALLBACK, metadata = md'\<rparr>, w')
        \<and> engine_calls w' = 10
        \<and> last (history_of w' ''abc'') = Assistant FALLBACK)"
proof -
  let ?env = "sample_env looping_engine"
  have g: "get_or_create_session ?env (Some ''abc'') one_session = (''abc'', one_session)"
    by (simp add: get_or_create_session_def one_session_def start_def)
  have e: "\<forall>k h. engine_calls one_session \<le> k \<and> k < engine_calls one_session + MAX_ITERATIONS \<longrightarrow>
      (\<exists>m. env_engine ?env k h = Inr m \<and> tool_calls m \<noteq> []
           \<and> list_all call_well_formed (tool_calls m))"
    by (simp add: sample_env_def looping_engine_def call_well_formed_def)
  have c: "engine_calls one_session = 0" by (simp add: one_session_def start_def)
  from iteration_bound_fallback [of ?env "Some ''abc''" "''hello''" one_session "''abc''" one_session] g e
  obtain md' w10 where
    "process_message ?env (Some ''abc'') ''hello'' one_session =
       (Inr \<lparr>sessionId = ''abc'', reply = FALLBACK, metadata = md'\<rparr>,
        append_turn ''abc'' (Assistant FALLBACK) w10)"
    "engine_calls w10 = engine_calls one_session + MAX_ITERATIONS"
    "history_of (append_turn ''abc'' (Assistant FALLBACK) w10) ''abc'' =
       history_of w10 ''abc'' @ [Assistant FALLBACK]"
    by blast
  then show ?thesis using g c by (auto simp: append_turn_counts MAX_ITERATIONS_def)
qed

text \<open>
  The claim as first stated fails when all ten responses carry tool invocations and the
  arguments of the tenth are no JSON: the tenth pass raises \<open>JSONDecodeError\<close>, and no
  fallback is appended or returned.
\<close>

theorem iteration_bound_fallback_counterexample:
  "fst (process_message (sample_env late_garbled_engine) (Some ''abc'') ''hello'' one_session) =
     Inl JSONDecodeError
   \<and> engine_calls (snd (process_message (sample_env late_garbled_engine) (Some ''abc'') ''hello''
        one_session)) = 10
   \<and> history_of (snd (process_message (sample_env late_garbled_engine) (Some ''abc'') ''hello''
        one_session)) ''abc'' =
       System SYSTEM_PROMPT # User ''hello'' #
       concat (replicate 9 [AssistantToolCalls None [agreement_call],
                            Tool ''call_1'' (Json show_agreement)]) @
       [AssistantToolCalls None [garbled_call]]"
  by (simp add: process_message_def get_or_create_session_def MAX_ITERATIONS_def eval_nat_numeral
      loop_body_def append_turn_def history_of_def sample_env_def start_def one_session_def
      late_garbled_engine_def agreement_call_def garbled_call_def json_loads_def json_dumps_def
      execute_tool_def capture_metadata_def)

end
